theory Spec2Isabelle
  imports Complex_Main "HOL-Library.Multiset" "HOL-Library.Log_Nat"
begin

section \<open>Conventions of the database\<close>

text \<open>
  Both programs keep their state in SQLite. A table is modelled as the list of its rows;
  the order of the list has no meaning for the statements modelled here, except where a
  query sorts. \<open>INTEGER\<close> and \<open>TEXT\<close> columns are \<open>int\<close> and \<open>string\<close>, \<open>REAL\<close> columns
  are \<open>rat\<close>, a nullable column is an \<open>option\<close>. Row ids, which SQLite counts, are
  mathematical integers, and so are the numbers that are only stored and compared (ids
  in a request, the cursor of a terminal). Timestamps (\<open>datetime('now')\<close>) are seconds read from a clock
  that the caller passes in as \<open>now\<close>.
\<close>

text \<open>
  The row id of an insert: the value given, or for \<open>NULL\<close> one more than the largest
  row id that the table holds or ever held.
\<close>

definition new_rowid :: "int option \<Rightarrow> int \<Rightarrow> int list \<Rightarrow> int" where
  "new_rowid given seq ids = (case given of Some i \<Rightarrow> i | None \<Rightarrow> fold max ids seq + 1)"

text \<open>A foreign key column holds \<open>NULL\<close> or the key of a row of the parent table.\<close>

definition fk_ok :: "int option \<Rightarrow> int list \<Rightarrow> bool" where
  "fk_ok ref keys = (case ref of None \<Rightarrow> True | Some k \<Rightarrow> k \<in> set keys)"

section \<open>The relay (sync-server/src/server.ts)\<close>

text \<open>
  The relay keeps two tables: \<open>sync_changes\<close>, the change log, in insertion order, and
  \<open>sync_metadata\<close>, whose only row holds \<open>latest_version\<close>. The version counter of a
  push is a JavaScript number, a double: \<open>latest_version\<close> is the number that \<open>parseInt\<close>
  reads from the stored text, itself a double, and \<open>currentVersion++\<close> adds one in double
  arithmetic.

  \<open>to_double\<close> rounds an integer to the nearest double, ties to the even significand
  of 53 bits; integers up to \<open>2^53\<close> in magnitude are doubles. So the increment is exact
  below \<open>2^53\<close> and leaves \<open>2^53\<close> where it is. The relay starts at 0 and only increments,
  so it never exceeds \<open>2^53\<close>; the text form of a number of magnitude \<open>10^21\<close> or more,
  which is not a digit string, is outside the model.
\<close>

definition to_double :: "int \<Rightarrow> int" where
  "to_double x =
     (let m = \<bar>x\<bar>; sh = nat (bitlen m - 53); q = m div 2 ^ sh; r = m mod 2 ^ sh
      in sgn x * ((if 2 ^ sh < 2 * r \<or> (2 * r = 2 ^ sh \<and> odd q) then q + 1 else q) * 2 ^ sh))"

definition js_increment :: "int \<Rightarrow> int" where
  "js_increment v = to_double (v + 1)"

record sync_change =
  change_id :: int
  store_id :: int
  terminal_id :: "int option"
  entity_type :: string
  entity_id :: int
  action :: string
  data :: string
  version :: int
  created_at :: nat

record relay =
  sync_changes :: "sync_change list"
  latest_version :: int

text \<open>
  One element of the \<open>changes\<close> array of a push body. The handler reads four
  properties of it; a property that is absent or \<open>null\<close> is \<open>None\<close>.
\<close>

record change =
  c_entity_type :: "string option"
  c_entity_id :: "int option"
  c_action :: "string option"
  c_data :: "string option"

text \<open>
  The \<open>changes\<close> property of the body: absent (or \<open>null\<close>), a value that is not an
  array, or an array.
\<close>

datatype changes_field = Absent | NotAList | ChangeList "change list"

record push_request =
  p_terminal_id :: "int option"
  p_store_id :: "int option"
  p_changes :: changes_field

datatype push_response =
  PushOk nat int
  | PushBadRequest
  | PushServerError

text \<open>JavaScript's \<open>!x\<close> on a numeric property: true when it is absent, null or 0.\<close>

definition falsy :: "int option \<Rightarrow> bool" where
  "falsy x = (case x of None \<Rightarrow> True | Some v \<Rightarrow> v = 0)"

text \<open>
  \<open>insertStmt.run\<close>: the columns \<open>entity_type\<close>, \<open>entity_id\<close>, \<open>action\<close> and
  \<open>data\<close> are NOT NULL, so a change that lacks one of them makes the statement throw.
  The row gets the next AUTOINCREMENT id; nothing is ever deleted from this table, so
  the largest id ever used is the largest id in it.
\<close>

definition insert_change ::
  "nat \<Rightarrow> int \<Rightarrow> int option \<Rightarrow> change \<Rightarrow> int \<Rightarrow> sync_change list \<Rightarrow> sync_change list option" where
  "insert_change now sid tid c v rows =
     (case (c_entity_type c, c_entity_id c, c_action c, c_data c) of
        (Some et, Some ei, Some a, Some d) \<Rightarrow>
          Some (rows @ [\<lparr>change_id = new_rowid None 0 (map change_id rows), store_id = sid, terminal_id = tid,
                         entity_type = et, entity_id = ei, action = a, data = d,
                         version = v, created_at = now\<rparr>])
      | _ \<Rightarrow> None)"

text \<open>
  The loop of the transaction: \<open>currentVersion++\<close>, then the insert, for each change in
  array order. \<open>None\<close> is an insert that threw.
\<close>

fun insert_changes ::
  "nat \<Rightarrow> int \<Rightarrow> int option \<Rightarrow> change list \<Rightarrow> int \<Rightarrow> sync_change list
     \<Rightarrow> (int \<times> sync_change list) option" where
  "insert_changes now sid tid [] v rows = Some (v, rows)"
| "insert_changes now sid tid (c # cs) v rows =
     (case insert_change now sid tid c (js_increment v) rows of
        None \<Rightarrow> None
      | Some rows' \<Rightarrow> insert_changes now sid tid cs (js_increment v) rows')"

text \<open>
  \<open>app.post('/api/sync/push')\<close>. The guard
  \<open>!terminal_id || !store_id || !changes || !Array.isArray(changes)\<close> answers with status
  400. An exception inside the transaction rolls it back and is answered with status 500.
  \<open>PushOk\<close> carries \<open>changes_received\<close> and \<open>latest_version\<close>.
\<close>

definition push :: "nat \<Rightarrow> push_request \<Rightarrow> relay \<Rightarrow> push_response \<times> relay" where
  "push now req st =
     (if falsy (p_terminal_id req) \<or> falsy (p_store_id req) then (PushBadRequest, st)
      else
        (case p_changes req of
           ChangeList chs \<Rightarrow>
             (case insert_changes now (the (p_store_id req)) (p_terminal_id req) chs
                     (latest_version st) (sync_changes st) of
                None \<Rightarrow> (PushServerError, st)
              | Some (v, rows) \<Rightarrow>
                  (PushOk (length chs) v, \<lparr>sync_changes = rows, latest_version = v\<rparr>))
         | _ \<Rightarrow> (PushBadRequest, st)))"

text \<open>
  The query of a pull after \<open>parseInt\<close>: \<open>None\<close> is \<open>NaN\<close> (parameter absent or not a
  number).
\<close>

record pull_request =
  q_terminal_id :: "int option"
  q_since_version :: "int option"

datatype pull_response =
  PullOk "sync_change list" int nat
  | PullBadRequest

text \<open>The WHERE clause of the pull query.\<close>

definition pull_match :: "int \<Rightarrow> int \<Rightarrow> sync_change \<Rightarrow> bool" where
  "pull_match sinceVersion terminalId r =
     (version r > sinceVersion \<and> (terminal_id r = None \<or> terminal_id r \<noteq> Some terminalId))"

text \<open>
  \<open>app.get('/api/sync/pull')\<close>. \<open>ORDER BY version ASC LIMIT 1000\<close> is a sort on the
  version followed by the first 1000 rows; rows of equal version, which SQL leaves in
  any order, stay in insertion order here.
\<close>

definition pull :: "pull_request \<Rightarrow> relay \<Rightarrow> pull_response" where
  "pull req st =
     (let sinceVersion = (case q_since_version req of None \<Rightarrow> 0 | Some v \<Rightarrow> v) in
      if falsy (q_terminal_id req) then PullBadRequest
      else
        (let changes = take 1000 (sort_key version
               (filter (pull_match sinceVersion (the (q_terminal_id req))) (sync_changes st)))
         in PullOk changes (latest_version st) (length changes)))"

section \<open>The terminal's local database\<close>

text \<open>
  The tables that the sync service writes when it replays remote changes, with the
  constraints that the schema migrations declare (the initial schema and the enterprise
  schema, which adds \<open>store_id\<close>); the connection runs with \<open>foreign_keys = ON\<close>. Each of
  the three tables has an AUTOINCREMENT key and with it an entry of \<open>sqlite_sequence\<close>,
  the largest row id ever used. Of the tables that reference products and users
  (\<open>sale_items\<close>, \<open>sales\<close>, \<open>audit_logs\<close>) only the referencing column is kept, and of
  \<open>stores\<close> only the ids.
\<close>

record category =
  cat_id :: int
  cat_name :: string
  cat_description :: "string option"
  cat_store_id :: "int option"
  cat_created_at :: nat
  cat_updated_at :: nat

record product =
  prod_id :: int
  prod_name :: string
  sku :: string
  barcode :: "string option"
  category_id :: "int option"
  price :: rat
  cost :: rat
  stock_quantity :: int
  min_stock_level :: "int option"
  prod_description :: "string option"
  image_url :: "string option"
  prod_is_active :: "int option"
  prod_store_id :: "int option"
  prod_created_at :: nat
  prod_updated_at :: nat

record user =
  user_id :: int
  username :: string
  password_hash :: string
  full_name :: string
  role :: string
  user_is_active :: "int option"
  user_store_id :: "int option"
  user_created_at :: nat
  user_updated_at :: nat

record store =
  stores :: "int list"
  categories :: "category list"
  categories_seq :: int
  products :: "product list"
  products_seq :: int
  users :: "user list"
  users_seq :: int
  sale_items_product_id :: "int list"
  sales_user_id :: "int list"
  audit_logs_user_id :: "int list"

text \<open>
  What \<open>JSON.parse(change.data)\<close> gives: it throws, it returns \<open>null\<close> (reading a
  property of it then throws), or it returns a value whose properties can be read. Of
  such a value the model keeps the properties that the three apply functions read, each
  absent or \<open>null\<close>, which reaches the statement as NULL, or a value of the column's
  type; values of another type are outside the model. \<open>JSON.parse\<close> itself
  is a parameter \<open>parse\<close> of the functions that call it.
\<close>

record payload =
  d_id :: "int option"
  d_name :: "string option"
  d_sku :: "string option"
  d_barcode :: "string option"
  d_category_id :: "int option"
  d_price :: "rat option"
  d_cost :: "rat option"
  d_stock_quantity :: "int option"
  d_min_stock_level :: "int option"
  d_description :: "string option"
  d_image_url :: "string option"
  d_is_active :: "int option"
  d_store_id :: "int option"
  d_username :: "string option"
  d_password_hash :: "string option"
  d_full_name :: "string option"
  d_role :: "string option"

datatype parsed = ParseThrows | ParsedNull | ParsedObject payload

datatype apply_error = SyntaxError | TypeError | SqliteError

text \<open>
  \<open>INSERT OR REPLACE INTO products (...) VALUES (...)\<close>. A \<open>NULL\<close> in a NOT NULL column
  is replaced by the column's default (\<open>cost\<close>, \<open>stock_quantity\<close>) or fails the
  statement (\<open>name\<close>, \<open>sku\<close>, \<open>price\<close>). The rows that hold the new row's \<open>id\<close>, \<open>sku\<close>
  or (non-null) \<open>barcode\<close> are deleted. The statement fails, and changes nothing, when it
  would leave a row of \<open>sale_items\<close> without its product or when the new row names a
  category or store that does not exist.
\<close>

definition product_clash :: "int \<Rightarrow> string \<Rightarrow> string option \<Rightarrow> product \<Rightarrow> bool" where
  "product_clash rid s b p = (prod_id p = rid \<or> sku p = s \<or> (b \<noteq> None \<and> barcode p = b))"

definition product_row :: "nat \<Rightarrow> int \<Rightarrow> string \<Rightarrow> string \<Rightarrow> rat \<Rightarrow> payload \<Rightarrow> product" where
  "product_row now rid n k pr d =
     \<lparr>prod_id = rid, prod_name = n, sku = k, barcode = d_barcode d,
      category_id = d_category_id d, price = pr,
      cost = (case d_cost d of None \<Rightarrow> 0 | Some c \<Rightarrow> c),
      stock_quantity = (case d_stock_quantity d of None \<Rightarrow> 0 | Some q \<Rightarrow> q),
      min_stock_level = d_min_stock_level d,
      prod_description = d_description d, image_url = d_image_url d,
      prod_is_active = d_is_active d, prod_store_id = d_store_id d,
      prod_created_at = now, prod_updated_at = now\<rparr>"

definition replace_product :: "nat \<Rightarrow> payload \<Rightarrow> store \<Rightarrow> apply_error + store" where
  "replace_product now d s =
     (case (d_name d, d_sku d, d_price d) of
        (Some n, Some k, Some pr) \<Rightarrow>
          (let rid = new_rowid (d_id d) (products_seq s) (map prod_id (products s));
               row = product_row now rid n k pr d;
               deleted = filter (product_clash rid k (d_barcode d)) (products s)
           in if (\<exists>p \<in> set deleted. prod_id p \<noteq> rid \<and> prod_id p \<in> set (sale_items_product_id s))
                 \<or> \<not> fk_ok (d_category_id d) (map cat_id (categories s))
                 \<or> \<not> fk_ok (d_store_id d) (stores s)
              then Inl SqliteError
              else Inr (s\<lparr>products :=
                            filter (\<lambda>p. \<not> product_clash rid k (d_barcode d) p) (products s) @ [row],
                          products_seq := max (products_seq s) rid\<rparr>))
      | _ \<Rightarrow> Inl SqliteError)"

text \<open>
  \<open>DELETE FROM products WHERE id = ?\<close>. With \<open>NULL\<close> for the id no row matches. Deleting
  a product that a row of \<open>sale_items\<close> references fails.
\<close>

definition delete_product :: "int option \<Rightarrow> store \<Rightarrow> apply_error + store" where
  "delete_product given s =
     (case given of
        None \<Rightarrow> Inr s
      | Some i \<Rightarrow>
          if i \<in> prod_id ` set (products s) \<and> i \<in> set (sale_items_product_id s)
          then Inl SqliteError
          else Inr (s\<lparr>products := filter (\<lambda>p. prod_id p \<noteq> i) (products s)\<rparr>))"

text \<open>
  The foreign key \<open>products.category_id\<close> is declared ON DELETE SET NULL: when category
  rows are deleted, by DELETE or by the delete that REPLACE performs, the products that
  referenced them lose their category.
\<close>

definition set_null_category :: "int list \<Rightarrow> product list \<Rightarrow> product list" where
  "set_null_category gone ps =
     map (\<lambda>p. case category_id p of
                 None \<Rightarrow> p
               | Some c \<Rightarrow> if c \<in> set gone then p\<lparr>category_id := None\<rparr> else p) ps"

text \<open>
  \<open>INSERT OR REPLACE INTO categories\<close>: \<open>name\<close> is NOT NULL and UNIQUE; the rows that
  hold the new row's \<open>id\<close> or \<open>name\<close> are deleted, and the products of the deleted rows
  lose their category, also when the new row takes the id of a deleted one.
  \<open>DELETE FROM categories WHERE id = ?\<close> does the same for the rows with that id.
\<close>

definition category_clash :: "int \<Rightarrow> string \<Rightarrow> category \<Rightarrow> bool" where
  "category_clash rid n c = (cat_id c = rid \<or> cat_name c = n)"

definition category_row :: "nat \<Rightarrow> int \<Rightarrow> string \<Rightarrow> payload \<Rightarrow> category" where
  "category_row now rid n d =
     \<lparr>cat_id = rid, cat_name = n, cat_description = d_description d,
      cat_store_id = d_store_id d, cat_created_at = now, cat_updated_at = now\<rparr>"

definition replace_category :: "nat \<Rightarrow> payload \<Rightarrow> store \<Rightarrow> apply_error + store" where
  "replace_category now d s =
     (case d_name d of
        Some n \<Rightarrow>
          (let rid = new_rowid (d_id d) (categories_seq s) (map cat_id (categories s));
               row = category_row now rid n d;
               deleted = filter (category_clash rid n) (categories s)
           in if \<not> fk_ok (d_store_id d) (stores s) then Inl SqliteError
              else Inr (s\<lparr>categories := filter (\<lambda>c. \<not> category_clash rid n c) (categories s) @ [row],
                          categories_seq := max (categories_seq s) rid,
                          products := set_null_category (map cat_id deleted) (products s)\<rparr>))
      | None \<Rightarrow> Inl SqliteError)"

definition delete_category :: "int option \<Rightarrow> store \<Rightarrow> apply_error + store" where
  "delete_category given s =
     (case given of
        None \<Rightarrow> Inr s
      | Some i \<Rightarrow>
          Inr (s\<lparr>categories := filter (\<lambda>c. cat_id c \<noteq> i) (categories s),
                 products := set_null_category
                   (map cat_id (filter (\<lambda>c. cat_id c = i) (categories s))) (products s)\<rparr>))"

text \<open>
  \<open>INSERT OR REPLACE INTO users\<close>: \<open>username\<close>, \<open>password_hash\<close>, \<open>full_name\<close> and
  \<open>role\<close> are NOT NULL without a default, \<open>role\<close> is checked against the three roles,
  \<open>username\<close> is UNIQUE; \<open>sales\<close> and \<open>audit_logs\<close> reference users.
\<close>

definition user_clash :: "int \<Rightarrow> string \<Rightarrow> user \<Rightarrow> bool" where
  "user_clash rid n u = (user_id u = rid \<or> username u = n)"

definition user_row ::
  "nat \<Rightarrow> int \<Rightarrow> string \<Rightarrow> string \<Rightarrow> string \<Rightarrow> string \<Rightarrow> payload \<Rightarrow> user" where
  "user_row now rid n h f r d =
     \<lparr>user_id = rid, username = n, password_hash = h, full_name = f, role = r,
      user_is_active = d_is_active d, user_store_id = d_store_id d,
      user_created_at = now, user_updated_at = now\<rparr>"

definition replace_user :: "nat \<Rightarrow> payload \<Rightarrow> store \<Rightarrow> apply_error + store" where
  "replace_user now d s =
     (case (d_username d, d_password_hash d, d_full_name d, d_role d) of
        (Some n, Some h, Some f, Some r) \<Rightarrow>
          (let rid = new_rowid (d_id d) (users_seq s) (map user_id (users s));
               row = user_row now rid n h f r d;
               deleted = filter (user_clash rid n) (users s)
           in if r \<notin> {''admin'', ''cashier'', ''manager''}
                 \<or> (\<exists>u \<in> set deleted. user_id u \<noteq> rid \<and>
                        user_id u \<in> set (sales_user_id s @ audit_logs_user_id s))
                 \<or> \<not> fk_ok (d_store_id d) (stores s)
              then Inl SqliteError
              else Inr (s\<lparr>users := filter (\<lambda>u. \<not> user_clash rid n u) (users s) @ [row],
                          users_seq := max (users_seq s) rid\<rparr>))
      | _ \<Rightarrow> Inl SqliteError)"

definition delete_user :: "int option \<Rightarrow> store \<Rightarrow> apply_error + store" where
  "delete_user given s =
     (case given of
        None \<Rightarrow> Inr s
      | Some i \<Rightarrow>
          if i \<in> user_id ` set (users s) \<and> i \<in> set (sales_user_id s @ audit_logs_user_id s)
          then Inl SqliteError
          else Inr (s\<lparr>users := filter (\<lambda>u. user_id u \<noteq> i) (users s)\<rparr>))"

section \<open>Replay of remote changes (SyncService, apply functions)\<close>

text \<open>
  The three apply functions share their shape: parse the payload, then switch on the
  action; an action other than create, update and delete does nothing.
\<close>

definition apply_with ::
  "(nat \<Rightarrow> payload \<Rightarrow> store \<Rightarrow> apply_error + store) \<Rightarrow> (int option \<Rightarrow> store \<Rightarrow> apply_error + store)
     \<Rightarrow> (string \<Rightarrow> parsed) \<Rightarrow> nat \<Rightarrow> sync_change \<Rightarrow> store \<Rightarrow> apply_error + store" where
  "apply_with replace delete parse now change s =
     (case parse (data change) of
        ParseThrows \<Rightarrow> Inl SyntaxError
      | ParsedNull \<Rightarrow>
          if action change \<in> {''create'', ''update'', ''delete''} then Inl TypeError else Inr s
      | ParsedObject d \<Rightarrow>
          if action change = ''create'' \<or> action change = ''update'' then replace now d s
          else if action change = ''delete'' then delete (d_id d) s
          else Inr s)"

definition applyProductChange ::
  "(string \<Rightarrow> parsed) \<Rightarrow> nat \<Rightarrow> sync_change \<Rightarrow> store \<Rightarrow> apply_error + store" where
  "applyProductChange = apply_with replace_product delete_product"

definition applyCategoryChange ::
  "(string \<Rightarrow> parsed) \<Rightarrow> nat \<Rightarrow> sync_change \<Rightarrow> store \<Rightarrow> apply_error + store" where
  "applyCategoryChange = apply_with replace_category delete_category"

definition applyUserChange ::
  "(string \<Rightarrow> parsed) \<Rightarrow> nat \<Rightarrow> sync_change \<Rightarrow> store \<Rightarrow> apply_error + store" where
  "applyUserChange = apply_with replace_user delete_user"

text \<open>
  The body of the loop of \<open>applyRemoteChanges\<close>: the switch on the entity type, which
  has no default case.
\<close>

definition apply_change ::
  "(string \<Rightarrow> parsed) \<Rightarrow> nat \<Rightarrow> sync_change \<Rightarrow> store \<Rightarrow> apply_error + store" where
  "apply_change parse now change s =
     (if entity_type change = ''product'' then applyProductChange parse now change s
      else if entity_type change = ''category'' then applyCategoryChange parse now change s
      else if entity_type change = ''user'' then applyUserChange parse now change s
      else Inr s)"

text \<open>
  \<open>applyRemoteChanges\<close>: each change is applied inside its own try; the catch writes
  one line to the console, naming the change's id, and the loop goes on. The result is
  the store and the ids logged, in order.
\<close>

fun applyRemoteChanges ::
  "(string \<Rightarrow> parsed) \<Rightarrow> nat \<Rightarrow> sync_change list \<Rightarrow> store \<Rightarrow> store \<times> int list" where
  "applyRemoteChanges parse now [] s = (s, [])"
| "applyRemoteChanges parse now (change # changes) s =
     (case apply_change parse now change s of
        Inl e \<Rightarrow> (let (s', logged) = applyRemoteChanges parse now changes s
                  in (s', change_id change # logged))
      | Inr s1 \<Rightarrow> applyRemoteChanges parse now changes s1)"

section \<open>The sync client (SyncService)\<close>

text \<open>
  The client's part of the local database: the outbox, the cursor table \<open>sync_state\<close>
  and the table of terminals, next to the replicated tables above; and the fields of the
  service object.
\<close>

record outbox_row =
  o_id :: int
  o_entity_type :: string
  o_entity_id :: int
  o_action :: string
  o_data :: string
  o_store_id :: int
  o_terminal_id :: "int option"
  synced :: bool
  sync_attempts :: int
  last_sync_attempt :: "nat option"
  o_created_at :: nat

record sync_state_row =
  ss_terminal_id :: int
  last_pull_at :: "nat option"
  last_push_at :: "nat option"
  last_sync_version :: int

record terminal =
  term_id :: int
  term_store_id :: int
  last_sync_at :: "nat option"

record client =
  terminalId :: "int option"
  storeId :: int
  serverUrl :: string
  db :: store
  terminals :: "terminal list"
  sync_outbox :: "outbox_row list"
  sync_state :: "sync_state_row list"

text \<open>
  \<open>addToOutbox\<close>. The argument \<open>json\<close> is the value of \<open>JSON.stringify(data)\<close>, which
  is \<open>undefined\<close> (\<open>None\<close>) for a value that has no JSON text. The insert fails when
  \<open>data\<close> is NULL, when the action is none of the three that the CHECK allows, or when
  the store or the terminal does not exist; the failure is caught and logged, and the
  outbox stays as it was. Rows are never deleted from the outbox, so the next
  AUTOINCREMENT id is one more than the largest id in it.
\<close>

definition addToOutbox ::
  "nat \<Rightarrow> string \<Rightarrow> int \<Rightarrow> string \<Rightarrow> string option \<Rightarrow> client \<Rightarrow> client" where
  "addToOutbox now entityType entityId act json c =
     (case json of
        None \<Rightarrow> c
      | Some d \<Rightarrow>
          if act \<notin> {''create'', ''update'', ''delete''}
             \<or> storeId c \<notin> set (stores (db c))
             \<or> \<not> fk_ok (terminalId c) (map term_id (terminals c))
          then c
          else c\<lparr>sync_outbox := sync_outbox c @
                 [\<lparr>o_id = new_rowid None 0 (map o_id (sync_outbox c)),
                   o_entity_type = entityType, o_entity_id = entityId, o_action = act,
                   o_data = d, o_store_id = storeId c, o_terminal_id = terminalId c,
                   synced = False, sync_attempts = 0, last_sync_attempt = None,
                   o_created_at = now\<rparr>]\<rparr>)"

text \<open>
  The batch of a push: the unsynced rows by \<open>created_at\<close>, at most 100. Rows with the
  same \<open>created_at\<close> stay in insertion order.
\<close>

definition unsyncedItems :: "client \<Rightarrow> outbox_row list" where
  "unsyncedItems c = take 100 (sort_key o_created_at (filter (\<lambda>e. \<not> synced e) (sync_outbox c)))"

text \<open>The body of the push request; of each outbox row the relay reads four properties.\<close>

definition change_of :: "outbox_row \<Rightarrow> change" where
  "change_of e = \<lparr>c_entity_type = Some (o_entity_type e), c_entity_id = Some (o_entity_id e),
                  c_action = Some (o_action e), c_data = Some (o_data e)\<rparr>"

definition push_body :: "client \<Rightarrow> outbox_row list \<Rightarrow> push_request" where
  "push_body c items = \<lparr>p_terminal_id = terminalId c, p_store_id = Some (storeId c),
                        p_changes = ChangeList (map change_of items)\<rparr>"

datatype sync_error = FetchError | PushFailed | PullFailed | NoSyncState

text \<open>
  \<open>fetch\<close> is a parameter: a function from the request and the state \<open>'w\<close> of the world
  outside the terminal to the response and the new state of the world; no response
  (\<open>None\<close>) is a \<open>fetch\<close> that throws. A function of the client returns the error it
  throws, if any, with the state it leaves behind.

  \<open>pushChanges\<close>: a batch that is not empty is sent; on a response with status 200 its
  rows are marked synced and \<open>last_push_at\<close> is set; on any other outcome the catch block
  counts the attempt on its rows and throws again.
\<close>

definition pushChanges ::
  "(push_request \<Rightarrow> 'w \<Rightarrow> push_response option \<times> 'w) \<Rightarrow> nat \<Rightarrow> client \<Rightarrow> 'w
     \<Rightarrow> sync_error option \<times> client \<times> 'w" where
  "pushChanges post now c w =
     (let items = unsyncedItems c in
      if items = [] then (None, c, w)
      else
        (let (response, w') = post (push_body c items) w;
             ids = map o_id items
         in case response of
              Some (PushOk n v) \<Rightarrow>
                (None,
                 c\<lparr>sync_outbox :=
                      map (\<lambda>e. if o_id e \<in> set ids then e\<lparr>synced := True\<rparr> else e) (sync_outbox c),
                    sync_state :=
                      map (\<lambda>r. if Some (ss_terminal_id r) = terminalId c
                                then r\<lparr>last_push_at := Some now\<rparr> else r) (sync_state c)\<rparr>,
                 w')
            | _ \<Rightarrow>
                (Some (if response = None then FetchError else PushFailed),
                 c\<lparr>sync_outbox :=
                      map (\<lambda>e. if o_id e \<in> set ids
                                then e\<lparr>sync_attempts := sync_attempts e + 1,
                                       last_sync_attempt := Some now\<rparr>
                                else e) (sync_outbox c)\<rparr>,
                 w')))"

text \<open>
  \<open>pullChanges\<close>. Without a row of \<open>sync_state\<close> for the terminal, reading the cursor
  throws before anything is sent. \<open>result.latest_version || syncState.last_sync_version\<close>
  keeps the cursor when the reported version is 0. The changes are applied when there are
  any, then the cursor row is updated.
\<close>

definition pullChanges ::
  "(pull_request \<Rightarrow> 'w \<Rightarrow> pull_response option \<times> 'w) \<Rightarrow> (string \<Rightarrow> parsed) \<Rightarrow> nat \<Rightarrow> client \<Rightarrow> 'w
     \<Rightarrow> sync_error option \<times> client \<times> 'w" where
  "pullChanges get parse now c w =
     (case find (\<lambda>r. Some (ss_terminal_id r) = terminalId c) (sync_state c) of
        None \<Rightarrow> (Some NoSyncState, c, w)
      | Some syncState \<Rightarrow>
          (let (response, w') =
                 get \<lparr>q_terminal_id = terminalId c,
                      q_since_version = Some (last_sync_version syncState)\<rparr> w
           in case response of
                None \<Rightarrow> (Some FetchError, c, w')
              | Some PullBadRequest \<Rightarrow> (Some PullFailed, c, w')
              | Some (PullOk changes reported n) \<Rightarrow>
                  (let latest = (if reported = 0 then last_sync_version syncState else reported);
                       db' = (if changes \<noteq> [] then fst (applyRemoteChanges parse now changes (db c))
                              else db c)
                   in (None,
                       c\<lparr>db := db',
                         sync_state :=
                           map (\<lambda>r. if Some (ss_terminal_id r) = terminalId c
                                     then r\<lparr>last_pull_at := Some now, last_sync_version := latest\<rparr>
                                     else r) (sync_state c)\<rparr>,
                       w'))))"

text \<open>
  \<open>sync\<close>: nothing without a server URL; otherwise the push phase, the pull phase and
  the terminal's \<open>last_sync_at\<close>, an error of a phase ending the cycle. The three
  timestamps are the clock at the push, at the pull and at the end.
\<close>

definition sync ::
  "(push_request \<Rightarrow> 'w \<Rightarrow> push_response option \<times> 'w) \<Rightarrow> (pull_request \<Rightarrow> 'w \<Rightarrow> pull_response option \<times> 'w)
     \<Rightarrow> (string \<Rightarrow> parsed) \<Rightarrow> nat \<Rightarrow> nat \<Rightarrow> nat \<Rightarrow> client \<Rightarrow> 'w \<Rightarrow> sync_error option \<times> client \<times> 'w" where
  "sync post get parse t_push t_pull t_end c w =
     (if serverUrl c = [] then (None, c, w)
      else
        (case pushChanges post t_push c w of
           (Some e, c1, w1) \<Rightarrow> (Some e, c1, w1)
         | (None, c1, w1) \<Rightarrow>
             (case pullChanges get parse t_pull c1 w1 of
                (Some e, c2, w2) \<Rightarrow> (Some e, c2, w2)
              | (None, c2, w2) \<Rightarrow>
                  (None,
                   c2\<lparr>terminals :=
                        map (\<lambda>t. if Some (term_id t) = terminalId c2
                                  then t\<lparr>last_sync_at := Some t_end\<rparr> else t) (terminals c2)\<rparr>,
                   w2))))"

section \<open>The relay as the world of a terminal\<close>

text \<open>
  A request over a link that is down never reaches the relay; a reply can be lost after
  the relay has handled the request; otherwise the terminal gets the relay's response.
\<close>

datatype link = Unreachable | ReplyLost | Connected

definition relay_post :: "link \<Rightarrow> nat \<Rightarrow> push_request \<Rightarrow> relay \<Rightarrow> push_response option \<times> relay" where
  "relay_post l now req st =
     (case l of
        Unreachable \<Rightarrow> (None, st)
      | ReplyLost \<Rightarrow> (None, snd (push now req st))
      | Connected \<Rightarrow> (Some (fst (push now req st)), snd (push now req st)))"

definition relay_get :: "link \<Rightarrow> pull_request \<Rightarrow> relay \<Rightarrow> pull_response option \<times> relay" where
  "relay_get l req st = (case l of Connected \<Rightarrow> (Some (pull req st), st) | _ \<Rightarrow> (None, st))"

section \<open>Notions of the specification\<close>

text \<open>A local mutation to enqueue: the arguments of \<open>addToOutbox\<close> and the time of the call.\<close>

record mutation =
  m_entity_type :: string
  m_entity_id :: int
  m_action :: string
  m_data :: "string option"
  m_time :: nat

fun enqueue_all :: "mutation list \<Rightarrow> client \<Rightarrow> client" where
  "enqueue_all [] c = c"
| "enqueue_all (m # ms) c =
     enqueue_all ms (addToOutbox (m_time m) (m_entity_type m) (m_entity_id m) (m_action m) (m_data m) c)"

text \<open>
  The states that the client reaches from an empty outbox by enqueueing, pushing and
  pulling, against any world, together with the ids of the outbox rows that were in a
  batch for which the push came back with status 200.
\<close>

inductive reachable ::
  "(push_request \<Rightarrow> 'w \<Rightarrow> push_response option \<times> 'w) \<Rightarrow> (pull_request \<Rightarrow> 'w \<Rightarrow> pull_response option \<times> 'w)
     \<Rightarrow> (string \<Rightarrow> parsed) \<Rightarrow> client \<Rightarrow> 'w \<Rightarrow> int set \<Rightarrow> bool"
  for post get parse where
  start: "sync_outbox c = [] \<Longrightarrow> reachable post get parse c w {}"
| enqueue: "reachable post get parse c w K \<Longrightarrow>
     reachable post get parse (addToOutbox now entityType entityId act json c) w K"
| push_confirmed: "reachable post get parse c w K \<Longrightarrow>
     fst (post (push_body c (unsyncedItems c)) w) = Some (PushOk n v) \<Longrightarrow>
     pushChanges post now c w = (r, c', w') \<Longrightarrow>
     reachable post get parse c' w' (K \<union> o_id ` set (unsyncedItems c))"
| push_failed: "reachable post get parse c w K \<Longrightarrow>
     fst (post (push_body c (unsyncedItems c)) w) \<notin> range (\<lambda>(n, v). Some (PushOk n v)) \<Longrightarrow>
     pushChanges post now c w = (r, c', w') \<Longrightarrow>
     reachable post get parse c' w' K"
| pull: "reachable post get parse c w K \<Longrightarrow>
     pullChanges get parse now c w = (r, c', w') \<Longrightarrow>
     reachable post get parse c' w' K"



text \<open>Applying one entry as the replay loop does: an entry that fails leaves the store.\<close>

definition replay_one :: "(string \<Rightarrow> parsed) \<Rightarrow> nat \<Rightarrow> sync_change \<Rightarrow> store \<Rightarrow> store" where
  "replay_one parse now change s = fst (applyRemoteChanges parse now [change] s)"

text \<open>
  The rejection rule as the specification words it: a push is invalid when a required
  field is missing or \<open>changes\<close> is not a list.
\<close>

definition spec_invalid_request :: "push_request \<Rightarrow> bool" where
  "spec_invalid_request req =
     (p_terminal_id req = None \<or> p_store_id req = None \<or>
      p_changes req = Absent \<or> p_changes req = NotAList)"

text \<open>A change whose four NOT NULL columns are all given.\<close>

definition complete_change :: "change \<Rightarrow> bool" where
  "complete_change c =
     (c_entity_type c \<noteq> None \<and> c_entity_id c \<noteq> None \<and> c_action c \<noteq> None \<and> c_data c \<noteq> None)"

text \<open>The values of \<open>changes\<close> that pass \<open>changes && Array.isArray(changes)\<close>.\<close>

definition is_list :: "changes_field \<Rightarrow> bool" where
  "is_list f = (case f of ChangeList chs \<Rightarrow> True | _ \<Rightarrow> False)"

text \<open>
  The invariant of the outbox: a row is marked synced only if its id was in a confirmed
  batch, and ids are not reused.
\<close>

definition outbox_ok :: "client \<Rightarrow> int set \<Rightarrow> bool" where
  "outbox_ok c K = ((\<forall>e \<in> set (sync_outbox c). synced e \<longrightarrow> o_id e \<in> K)
                     \<and> distinct (map o_id (sync_outbox c)))"

section \<open>Example values\<close>

definition example_store :: store where
  "example_store = \<lparr>stores = [1], categories = [], categories_seq = 0, products = [],
     products_seq = 0, users = [], users_seq = 0, sale_items_product_id = [],
     sales_user_id = [], audit_logs_user_id = []\<rparr>"


definition example_payload :: "int option \<Rightarrow> payload" where
  "example_payload i = \<lparr>d_id = i, d_name = Some ''Tea'', d_sku = Some ''T-1'', d_barcode = None,
     d_category_id = None, d_price = Some 3, d_cost = None, d_stock_quantity = Some 10,
     d_min_stock_level = None, d_description = None, d_image_url = None,
     d_is_active = Some 1, d_store_id = Some 1, d_username = None, d_password_hash = None,
     d_full_name = None, d_role = None\<rparr>"

definition example_parse :: "string \<Rightarrow> parsed" where
  "example_parse text =
     (if text = ''tea'' then ParsedObject (example_payload (Some 4))
      else if text = ''tea without id'' then ParsedObject (example_payload None)
      else if text = ''snacks'' then
        ParsedObject ((example_payload (Some 1))\<lparr>d_name := Some ''Snacks'', d_description := Some ''Salty''\<rparr>)
      else if text = ''ann'' then
        ParsedObject ((example_payload (Some 1))\<lparr>d_username := Some ''ann'',
          d_password_hash := Some ''3f2a'', d_full_name := Some ''Ann Perera'',
          d_role := Some ''manager''\<rparr>)
      else if text = ''null'' then ParsedNull
      else ParseThrows)"

definition example_change :: "string \<Rightarrow> string \<Rightarrow> sync_change" where
  "example_change et text = \<lparr>change_id = 7, store_id = 1, terminal_id = Some 2, entity_type = et,
     entity_id = 4, action = ''update'', data = text, version = 11, created_at = 0\<rparr>"

definition example_client :: client where
  "example_client = \<lparr>terminalId = Some 2, storeId = 1, serverUrl = ''http://relay:3001'',
     db = example_store,
     terminals = [\<lparr>term_id = 2, term_store_id = 1, last_sync_at = None\<rparr>],
     sync_outbox = [],
     sync_state = [\<lparr>ss_terminal_id = 2, last_pull_at = None, last_push_at = None,
                    last_sync_version = 5\<rparr>]\<rparr>"

definition example_relay :: "int \<Rightarrow> relay" where
  "example_relay v = \<lparr>sync_changes = [], latest_version = v\<rparr>"


definition example_mutation :: mutation where
  "example_mutation = \<lparr>m_entity_type = ''product'', m_entity_id = 4, m_action = ''update'',
     m_data = Some ''tea'', m_time = 1\<rparr>"

section \<open>Properties of the relay\<close>

lemma to_double_small:
  assumes "\<bar>x\<bar> < 2 ^ 53"
  shows "to_double x = x"
proof -
  have "nat \<bar>x\<bar> < 2 ^ 53" using assms by (simp add: nat_less_iff)
  then have "floorlog 2 (nat \<bar>x\<bar>) \<le> 53" by (simp add: floorlog_le_iff)
  then have "nat (bitlen \<bar>x\<bar> - 53) = 0" by (simp add: bitlen_def)
  then show ?thesis
    by (simp add: to_double_def Let_def mult_sgn_abs)
qed

lemma to_double_limit: "to_double (2 ^ 53) = 2 ^ 53" "to_double (- (2 ^ 53)) = - (2 ^ 53)"
  by code_simp+

lemma to_double_exact:
  assumes "\<bar>x\<bar> \<le> 2 ^ 53"
  shows "to_double x = x"
proof (cases "\<bar>x\<bar> < 2 ^ 53")
  case True
  then show ?thesis by (rule to_double_small)
next
  case False
  with assms have "x = 2 ^ 53 \<or> x = - (2 ^ 53)" by (auto simp: abs_if split: if_splits)
  then show ?thesis using to_double_limit by auto
qed

lemma js_increment_exact: "- (2 ^ 53) \<le> v \<Longrightarrow> v < 2 ^ 53 \<Longrightarrow> js_increment v = v + 1"
  unfolding js_increment_def by (rule to_double_exact) (simp add: abs_if)

lemma insert_changes_Some:
  assumes "insert_changes now sid tid chs v rows = Some (v', rows')"
    and "- (2 ^ 53) \<le> v" and "v + int (length chs) \<le> 2 ^ 53"
  shows "v' = v + int (length chs) \<and>
     (\<exists>new. rows' = rows @ new \<and> length new = length chs \<and>
        map version new = map (\<lambda>i. v + 1 + int i) [0..<length chs] \<and>
        map entity_type new = map (the \<circ> c_entity_type) chs \<and>
        map entity_id new = map (the \<circ> c_entity_id) chs \<and>
        map action new = map (the \<circ> c_action) chs \<and>
        map data new = map (the \<circ> c_data) chs \<and>
        (\<forall>r \<in> set new. terminal_id r = tid \<and> store_id r = sid))"
  using assms
proof (induction chs arbitrary: v rows)
  case Nil
  then show ?case by simp
next
  case (Cons c cs)
  have inc: "js_increment v = v + 1"
    using Cons.prems(2,3) by (intro js_increment_exact) simp_all
  from Cons.prems(1) obtain rows1 where
    r1: "insert_change now sid tid c (v + 1) rows = Some rows1" and
    rest: "insert_changes now sid tid cs (v + 1) rows1 = Some (v', rows')"
    by (auto simp: inc split: option.splits)
  from r1 obtain row where
    rows1: "rows1 = rows @ [row]" and
    row: "version row = v + 1" "entity_type row = the (c_entity_type c)"
      "entity_id row = the (c_entity_id c)" "action row = the (c_action c)"
      "data row = the (c_data c)" "terminal_id row = tid" "store_id row = sid"
    by (auto simp: insert_change_def split: option.splits)
  have bounds: "- (2 ^ 53) \<le> v + 1" "v + 1 + int (length cs) \<le> 2 ^ 53"
    using Cons.prems(2,3) by simp_all
  from Cons.IH [OF rest bounds] obtain new where
    v': "v' = v + 1 + int (length cs)" and
    new: "rows' = rows1 @ new" "length new = length cs"
      "map version new = map (\<lambda>i. v + 1 + 1 + int i) [0..<length cs]"
      "map entity_type new = map (the \<circ> c_entity_type) cs"
      "map entity_id new = map (the \<circ> c_entity_id) cs"
      "map action new = map (the \<circ> c_action) cs"
      "map data new = map (the \<circ> c_data) cs"
      "\<forall>r \<in> set new. terminal_id r = tid \<and> store_id r = sid"
    by blast
  have shift: "map (\<lambda>i. v + 1 + int i) [0..<length (c # cs)]
      = (v + 1) # map (\<lambda>i. v + 1 + 1 + int i) [0..<length cs]"
    by (simp add: upt_conv_Cons map_Suc_upt [symmetric] del: upt_Suc)
  have "rows' = rows @ (row # new)" using rows1 new(1) by simp
  moreover have "length (row # new) = length (c # cs)" using new(2) by simp
  moreover have "map version (row # new) = map (\<lambda>i. v + 1 + int i) [0..<length (c # cs)]"
    using row(1) new(3) shift by simp
  moreover have "map entity_type (row # new) = map (the \<circ> c_entity_type) (c # cs)"
    using row(2) new(4) by simp
  moreover have "map entity_id (row # new) = map (the \<circ> c_entity_id) (c # cs)"
    using row(3) new(5) by simp
  moreover have "map action (row # new) = map (the \<circ> c_action) (c # cs)"
    using row(4) new(6) by simp
  moreover have "map data (row # new) = map (the \<circ> c_data) (c # cs)"
    using row(5) new(7) by simp
  moreover have "\<forall>r \<in> set (row # new). terminal_id r = tid \<and> store_id r = sid"
    using row(6,7) new(8) by simp
  moreover have "v' = v + int (length (c # cs))" using v' by simp
  ultimately show ?case by blast
qed

lemma insert_changes_accepts:
  "(\<exists>res. insert_changes now sid tid chs v rows = Some res) = list_all complete_change chs"
proof (induction chs arbitrary: v rows)
  case Nil
  then show ?case by simp
next
  case (Cons c cs)
  show ?case
  proof (cases "complete_change c")
    case True
    then obtain rows1 where "insert_change now sid tid c (js_increment v) rows = Some rows1"
      by (auto simp: insert_change_def complete_change_def)
    with True Cons.IH [of "js_increment v" rows1] show ?thesis by simp
  next
    case False
    then have "insert_change now sid tid c (js_increment v) rows = None"
      by (auto simp: insert_change_def complete_change_def split: option.splits)
    with False show ?thesis by simp
  qed
qed

lemma contiguous_strictly_increasing:
  "sorted_wrt (<) (map (\<lambda>i. (v::int) + 1 + int i) [0..<k])"
  by (simp add: sorted_wrt_map sorted_wrt_iff_nth_less)


lemma push_accepted_rows:
  assumes "push now req st = (PushOk k v, st')"
    and chs: "p_changes req = ChangeList chs"
    and "- (2 ^ 53) \<le> latest_version st"
    and "latest_version st + int (length chs) \<le> 2 ^ 53"
  shows "\<exists>new.
           k = length chs \<and>
           sync_changes st' = sync_changes st @ new \<and> length new = k \<and>
           map version new = map (\<lambda>i. latest_version st + 1 + int i) [0..<k] \<and>
           sorted_wrt (<) (map version new) \<and>
           map entity_type new = map (the \<circ> c_entity_type) chs \<and>
           map entity_id new = map (the \<circ> c_entity_id) chs \<and>
           map action new = map (the \<circ> c_action) chs \<and>
           map data new = map (the \<circ> c_data) chs \<and>
           (\<forall>r \<in> set new. terminal_id r = p_terminal_id req \<and> Some (store_id r) = p_store_id req) \<and>
           latest_version st' = latest_version st + int k \<and>
           v = latest_version st'"
proof -
  from assms(1) chs have ok: "\<not> falsy (p_terminal_id req)" "\<not> falsy (p_store_id req)"
    by (auto simp: push_def split: if_splits)
  from ok(2) obtain sid where sid: "p_store_id req = Some sid"
    by (auto simp: falsy_def split: option.splits)
  from assms(1) chs ok sid obtain rows where
    ins: "insert_changes now sid (p_terminal_id req) chs (latest_version st) (sync_changes st)
            = Some (v, rows)" and
    k: "k = length chs" and st': "st' = \<lparr>sync_changes = rows, latest_version = v\<rparr>"
    by (auto simp: push_def split: option.splits)
  from insert_changes_Some [OF ins assms(3,4)] obtain new where
    v: "v = latest_version st + int (length chs)" and
    new: "rows = sync_changes st @ new" "length new = length chs"
      "map version new = map (\<lambda>i. latest_version st + 1 + int i) [0..<length chs]"
      "map entity_type new = map (the \<circ> c_entity_type) chs"
      "map entity_id new = map (the \<circ> c_entity_id) chs"
      "map action new = map (the \<circ> c_action) chs"
      "map data new = map (the \<circ> c_data) chs"
      "\<forall>r \<in> set new. terminal_id r = p_terminal_id req \<and> store_id r = sid"
    by blast
  have inc: "sorted_wrt (<) (map version new)"
    unfolding new(3) by (rule contiguous_strictly_increasing)
  show ?thesis
    using k st' v new inc sid by auto
qed




text \<open>
  C10. A push whose \<open>terminal_id\<close> and \<open>store_id\<close> are present and non-zero and whose
  \<open>changes\<close> is the empty list succeeds with \<open>changes_received = 0\<close> and the stored
  version, and leaves the change log and \<open>latest_version\<close> as they were.
\<close>

theorem push_empty_batch:
  assumes "t \<noteq> 0" and "s \<noteq> 0"
  shows "push now \<lparr>p_terminal_id = Some t, p_store_id = Some s, p_changes = ChangeList []\<rparr> st
           = (PushOk 0 (latest_version st), st)"
  using assms by (simp add: push_def falsy_def)

theorem push_empty_batch_witness:
  "(3::int) \<noteq> 0 \<and> (1::int) \<noteq> 0 \<and>
   push 5 \<lparr>p_terminal_id = Some 3, p_store_id = Some 1, p_changes = ChangeList []\<rparr>
        \<lparr>sync_changes = [], latest_version = 4\<rparr>
     = (PushOk 0 4, \<lparr>sync_changes = [], latest_version = 4\<rparr>)"
  using push_empty_batch [of 3 1 5 "\<lparr>sync_changes = [], latest_version = 4\<rparr>"] by simp

text \<open>
  C8, as stated, fails: a body whose \<open>terminal_id\<close> is present with the value 0, whose
  \<open>store_id\<close> is present and whose \<open>changes\<close> is a list is rejected with status 400.
\<close>

theorem push_zero_terminal_rejected:
  "fst (push 0 \<lparr>p_terminal_id = Some 0, p_store_id = Some 1, p_changes = ChangeList []\<rparr>
           \<lparr>sync_changes = [], latest_version = 0\<rparr>) = PushBadRequest
   \<and> \<not> spec_invalid_request
         \<lparr>p_terminal_id = Some 0, p_store_id = Some 1, p_changes = ChangeList []\<rparr>"
  by (simp add: push_def falsy_def spec_invalid_request_def)

text \<open>
  C8, amended. The push is rejected with status 400 exactly when \<open>terminal_id\<close> or
  \<open>store_id\<close> is missing, null or 0, or \<open>changes\<close> is missing or not a list; a
  rejected push inserts nothing and leaves \<open>latest_version\<close> unchanged.
\<close>

theorem push_rejects_falsy_fields:
  "(fst (push now req st) = PushBadRequest) =
     (falsy (p_terminal_id req) \<or> falsy (p_store_id req) \<or> \<not> is_list (p_changes req))
   \<and> (fst (push now req st) = PushBadRequest \<longrightarrow> snd (push now req st) = st)"
  by (auto simp: push_def is_list_def split: changes_field.splits option.splits)

theorem push_rejects_falsy_fields_witness:
  "fst (push 0 \<lparr>p_terminal_id = None, p_store_id = Some 1, p_changes = NotAList\<rparr>
          \<lparr>sync_changes = [], latest_version = 3\<rparr>) = PushBadRequest
   \<and> snd (push 0 \<lparr>p_terminal_id = None, p_store_id = Some 1, p_changes = NotAList\<rparr>
          \<lparr>sync_changes = [], latest_version = 3\<rparr>) = \<lparr>sync_changes = [], latest_version = 3\<rparr>"
  using push_rejects_falsy_fields [of 0
      "\<lparr>p_terminal_id = None, p_store_id = Some 1, p_changes = NotAList\<rparr>"
      "\<lparr>sync_changes = [], latest_version = 3\<rparr>"]
  by (simp add: falsy_def is_list_def)

lemma take_sorted_low:
  assumes "sorted (map f ys)" "r \<in> set ys" "r \<notin> set (take n ys)" "r' \<in> set (take n ys)"
  shows "f r' \<le> f r"
proof -
  have ys: "ys = take n ys @ drop n ys" by simp
  with assms(2,3) have "r \<in> set (drop n ys)"
    by (metis Un_iff set_append)
  moreover from assms(1) have "sorted (map f (take n ys) @ map f (drop n ys))"
    by (metis ys map_append)
  ultimately show ?thesis using assms(4)
    by (auto simp: sorted_append)
qed

text \<open>
  C2, as stated, fails for the terminal id 0, which the relay treats like an absent one:
  the pull is answered with status 400, although the change log holds a row of another
  terminal above the cursor.
\<close>

theorem pull_zero_terminal_rejected:
  "pull \<lparr>q_terminal_id = Some 0, q_since_version = Some 0\<rparr>
     \<lparr>sync_changes =
        [\<lparr>change_id = 1, store_id = 1, terminal_id = Some 2, entity_type = ''product'',
          entity_id = 1, action = ''create'', data = ''{}'', version = 1, created_at = 0\<rparr>],
      latest_version = 1\<rparr>
   = PullBadRequest"
  by (simp add: pull_def falsy_def)

text \<open>
  C2, amended. A pull whose terminal id \<open>t\<close> is not 0 is answered with rows of the
  change log whose version exceeds the cursor and whose \<open>terminal_id\<close> is null or
  differs from \<open>t\<close>, so never with a row that \<open>t\<close> pushed itself. The rows are sorted
  ascending by version. All matching rows are returned when there are at most 1000 of
  them, otherwise the 1000 of lowest version. The \<open>latest_version\<close> of the response is
  the stored one whether or not any row matched. An absent cursor counts as 0.
\<close>

theorem pull_returns_foreign_changes:
  assumes "q_terminal_id req = Some t" and "t \<noteq> 0"
  shows "\<exists>rows.
     pull req st = PullOk rows (latest_version st) (length rows) \<and>
     mset rows \<subseteq># mset (filter (\<lambda>r. (case q_since_version req of None \<Rightarrow> 0 | Some v \<Rightarrow> v) < version r
                                    \<and> terminal_id r \<noteq> Some t) (sync_changes st)) \<and>
     length rows = min 1000 (length (filter (\<lambda>r. (case q_since_version req of None \<Rightarrow> 0 | Some v \<Rightarrow> v) < version r
                                    \<and> terminal_id r \<noteq> Some t) (sync_changes st))) \<and>
     sorted (map version rows) \<and>
     (\<forall>r \<in> set (sync_changes st).
        (case q_since_version req of None \<Rightarrow> 0 | Some v \<Rightarrow> v) < version r \<and> terminal_id r \<noteq> Some t \<and> r \<notin> set rows
        \<longrightarrow> (\<forall>r' \<in> set rows. version r' \<le> version r)) \<and>
     (\<forall>r \<in> set rows. terminal_id r \<noteq> Some t)"
proof -
  define sv where "sv = (case q_since_version req of None \<Rightarrow> 0 | Some v \<Rightarrow> v)"
  define P where "P = (\<lambda>r::sync_change. sv < version r \<and> terminal_id r \<noteq> Some t)"
  define ys where "ys = sort_key version (filter P (sync_changes st))"
  have Pm: "pull_match sv t = P"
    by (auto simp: pull_match_def P_def fun_eq_iff)
  have run: "pull req st = PullOk (take 1000 ys) (latest_version st) (length (take 1000 ys))"
    using assms by (simp add: pull_def falsy_def Let_def Pm [unfolded sv_def] ys_def sv_def)
  have msub: "mset (take 1000 ys) \<subseteq># mset (filter P (sync_changes st))"
  proof -
    have "mset (take 1000 ys) \<subseteq># mset (take 1000 ys) + mset (drop 1000 ys)" by simp
    also have "\<dots> = mset ys" by (metis append_take_drop_id mset_append)
    also have "\<dots> = mset (filter P (sync_changes st))" by (simp add: ys_def)
    finally show ?thesis .
  qed
  have len: "length (take 1000 ys) = min 1000 (length (filter P (sync_changes st)))"
    by (simp add: ys_def min.commute)
  have srt: "sorted (map version ys)" by (simp add: ys_def)
  then have srt': "sorted (map version (take 1000 ys))"
    by (simp add: take_map [symmetric] sorted_wrt_take)
  have low: "\<forall>r \<in> set (sync_changes st). P r \<and> r \<notin> set (take 1000 ys)
        \<longrightarrow> (\<forall>r' \<in> set (take 1000 ys). version r' \<le> version r)"
  proof (intro ballI impI)
    fix r r' assume "r \<in> set (sync_changes st)" "P r \<and> r \<notin> set (take 1000 ys)"
      "r' \<in> set (take 1000 ys)"
    then have "r \<in> set ys" by (simp add: ys_def)
    with srt show "version r' \<le> version r"
      using \<open>P r \<and> r \<notin> set (take 1000 ys)\<close> \<open>r' \<in> set (take 1000 ys)\<close>
      by (metis take_sorted_low)
  qed
  have own: "\<forall>r \<in> set (take 1000 ys). terminal_id r \<noteq> Some t"
  proof
    fix r assume "r \<in> set (take 1000 ys)"
    then have "r \<in> set ys" by (rule in_set_takeD)
    then show "terminal_id r \<noteq> Some t" by (simp add: ys_def P_def)
  qed
  show ?thesis
    using run msub len srt' low own unfolding P_def sv_def by blast
qed

theorem pull_returns_foreign_changes_witness:
  "q_terminal_id \<lparr>q_terminal_id = Some 1, q_since_version = Some 1\<rparr> = Some 1 \<and> (1::int) \<noteq> 0 \<and>
   pull \<lparr>q_terminal_id = Some 1, q_since_version = Some 1\<rparr>
     \<lparr>sync_changes =
        [\<lparr>change_id = 1, store_id = 1, terminal_id = Some 2, entity_type = ''product'', entity_id = 1,
          action = ''create'', data = ''{}'', version = 1, created_at = 0\<rparr>,
         \<lparr>change_id = 2, store_id = 1, terminal_id = Some 1, entity_type = ''product'', entity_id = 2,
          action = ''create'', data = ''{}'', version = 2, created_at = 0\<rparr>,
         \<lparr>change_id = 3, store_id = 1, terminal_id = None, entity_type = ''product'', entity_id = 3,
          action = ''create'', data = ''{}'', version = 3, created_at = 0\<rparr>,
         \<lparr>change_id = 4, store_id = 1, terminal_id = Some 2, entity_type = ''user'', entity_id = 1,
          action = ''delete'', data = ''{}'', version = 4, created_at = 0\<rparr>],
      latest_version = 4\<rparr>
   = PullOk
       [\<lparr>change_id = 3, store_id = 1, terminal_id = None, entity_type = ''product'', entity_id = 3,
          action = ''create'', data = ''{}'', version = 3, created_at = 0\<rparr>,
        \<lparr>change_id = 4, store_id = 1, terminal_id = Some 2, entity_type = ''user'', entity_id = 1,
          action = ''delete'', data = ''{}'', version = 4, created_at = 0\<rparr>] 4 2"
  using pull_returns_foreign_changes [of "\<lparr>q_terminal_id = Some 1, q_since_version = Some 1\<rparr>" 1
     "\<lparr>sync_changes =
        [\<lparr>change_id = 1, store_id = 1, terminal_id = Some 2, entity_type = ''product'', entity_id = 1,
          action = ''create'', data = ''{}'', version = 1, created_at = 0\<rparr>,
         \<lparr>change_id = 2, store_id = 1, terminal_id = Some 1, entity_type = ''product'', entity_id = 2,
          action = ''create'', data = ''{}'', version = 2, created_at = 0\<rparr>,
         \<lparr>change_id = 3, store_id = 1, terminal_id = None, entity_type = ''product'', entity_id = 3,
          action = ''create'', data = ''{}'', version = 3, created_at = 0\<rparr>,
         \<lparr>change_id = 4, store_id = 1, terminal_id = Some 2, entity_type = ''user'', entity_id = 1,
          action = ''delete'', data = ''{}'', version = 4, created_at = 0\<rparr>],
      latest_version = 4\<rparr>"]
  by (simp add: pull_def falsy_def pull_match_def)

section \<open>Properties of the replay\<close>

lemma applyRemoteChanges_append:
  "applyRemoteChanges parse now (xs @ ys) s =
     (let (s1, log1) = applyRemoteChanges parse now xs s;
          (s2, log2) = applyRemoteChanges parse now ys s1
      in (s2, log1 @ log2))"
  by (induction xs arbitrary: s) (auto split: sum.splits prod.splits)

text \<open>
  C9, amended. During the replay of a batch, an entry whose entity type is not one of
  product, category and user is skipped without a word on the console, and an entry
  whose apply function throws is skipped with one console line that names its id. In
  both cases the store is what the entries before it left, and the entries after it are
  applied to that store as if the entry were not in the batch.
\<close>

theorem replay_skips_entry:
  assumes "applyRemoteChanges parse now before s = (s1, log1)"
    and "applyRemoteChanges parse now after s1 = (s2, log2)"
  shows "(entity_type change \<notin> {''product'', ''category'', ''user''} \<longrightarrow>
            applyRemoteChanges parse now (before @ change # after) s = (s2, log1 @ log2)) \<and>
         (\<forall>e. apply_change parse now change s1 = Inl e \<longrightarrow>
            applyRemoteChanges parse now (before @ change # after) s
              = (s2, log1 @ change_id change # log2))"
  using assms by (auto simp: applyRemoteChanges_append apply_change_def)


lemma filter_not_clash_append:
  "P row \<Longrightarrow> filter (\<lambda>x. \<not> P x) (filter (\<lambda>x. \<not> P x) xs @ [row]) = filter (\<lambda>x. \<not> P x) xs"
  by simp

lemma filter_clash_append:
  "P row \<Longrightarrow> filter P (filter (\<lambda>x. \<not> P x) xs @ [row]) = [row]"
  by (simp add: filter_empty_conv)











lemma replay_one_eq:
  "replay_one parse now change s = (case apply_change parse now change s of Inl e \<Rightarrow> s | Inr s' \<Rightarrow> s')"
  by (simp add: replay_one_def split: sum.splits)


































lemmas example_defs = example_store_def example_payload_def example_parse_def example_change_def

lemmas apply_defs = replay_one_eq apply_change_def applyProductChange_def applyCategoryChange_def
  applyUserChange_def apply_with_def replace_product_def new_rowid_def fk_ok_def
  product_clash_def product_row_def Let_def


theorem replay_skips_entry_witness:
  "applyRemoteChanges example_parse 3 [] example_store = (example_store, []) \<and>
   applyRemoteChanges example_parse 3 [example_change ''product'' ''tea''] example_store
     = (replay_one example_parse 3 (example_change ''product'' ''tea'') example_store, []) \<and>
   apply_change example_parse 3 (example_change ''user'' ''{'') example_store = Inl SyntaxError \<and>
   applyRemoteChanges example_parse 3
       ([] @ example_change ''user'' ''{'' # [example_change ''product'' ''tea'']) example_store
     = (replay_one example_parse 3 (example_change ''product'' ''tea'') example_store, [] @ 7 # [])"
proof -
  have h1: "applyRemoteChanges example_parse 3 [] example_store = (example_store, [])" by simp
  have h2: "applyRemoteChanges example_parse 3 [example_change ''product'' ''tea''] example_store
     = (replay_one example_parse 3 (example_change ''product'' ''tea'') example_store, [])"
    by (simp add: example_defs apply_defs)
  have h3: "apply_change example_parse 3 (example_change ''user'' ''{'') example_store = Inl SyntaxError"
    by (simp add: example_defs apply_defs)
  have h4: "change_id (example_change ''user'' ''{'') = 7" by (simp add: example_defs)
  from replay_skips_entry [where parse = example_parse and before = "[]" and s = example_store
      and change = "example_change ''user'' ''{''", OF h1 h2] h1 h2 h3 h4
  show ?thesis by simp
qed

text \<open>
  C9, as stated, fails: an entry of an unrecognized entity type is skipped, but nothing is
  logged for it.
\<close>

theorem replay_unknown_entity_not_logged:
  "entity_type (example_change ''sale'' ''tea'') \<notin> {''product'', ''category'', ''user''} \<and>
   applyRemoteChanges example_parse 0 [example_change ''sale'' ''tea''] example_store
     = (example_store, [])"
  by (simp add: example_defs apply_defs)

section \<open>Properties of the sync cycle\<close>

lemma pushChanges_terminalId:
  "pushChanges post now c w = (r, c', w') \<Longrightarrow>
     terminalId c' = terminalId c \<and> db c' = db c \<and> terminals c' = terminals c \<and>
     serverUrl c' = serverUrl c \<and> storeId c' = storeId c"
  by (auto simp: pushChanges_def Let_def split: if_splits prod.splits option.splits
      push_response.splits)

lemma pushChanges_failed:
  assumes "unsyncedItems c \<noteq> []"
    and "post (push_body c (unsyncedItems c)) w = (response, w')"
    and "response = None \<or> response = Some PushBadRequest \<or> response = Some PushServerError"
  shows "pushChanges post now c w =
     (Some (if response = None then FetchError else PushFailed),
      c\<lparr>sync_outbox :=
           map (\<lambda>e. if o_id e \<in> set (map o_id (unsyncedItems c))
                     then e\<lparr>sync_attempts := sync_attempts e + 1, last_sync_attempt := Some now\<rparr>
                     else e) (sync_outbox c)\<rparr>,
      w')"
  using assms by (auto simp: pushChanges_def Let_def)

lemma unsyncedItems_subset: "set (unsyncedItems c) \<subseteq> {e \<in> set (sync_outbox c). \<not> synced e}"
  by (auto simp: unsyncedItems_def dest: in_set_takeD)

text \<open>
  C4. When the push of a batch fails (\<open>fetch\<close> throws, or the relay answers with status
  400 or 500), the cycle ends with the error: every outbox row of the batch has
  \<open>sync_attempts\<close> raised by one and \<open>last_sync_attempt\<close> set to the time of the push
  and is still not synced, no row changes its \<open>synced\<close> flag, rows whose id is not in
  the batch are untouched, and the pull phase does not run: the cursor table, the
  replicated tables and the terminals are unchanged and the world is as the push left it.
\<close>

theorem failed_push_aborts_cycle:
  assumes "serverUrl c \<noteq> []" and "unsyncedItems c \<noteq> []"
    and "post (push_body c (unsyncedItems c)) w = (response, w')"
    and "response = None \<or> response = Some PushBadRequest \<or> response = Some PushServerError"
  shows "\<exists>e c'. sync post get parse t_push t_pull t_end c w = (Some e, c', w') \<and>
     length (sync_outbox c') = length (sync_outbox c) \<and>
     (\<forall>k < length (sync_outbox c).
        (sync_outbox c ! k \<in> set (unsyncedItems c) \<longrightarrow>
           sync_outbox c' ! k = (sync_outbox c ! k)
              \<lparr>sync_attempts := sync_attempts (sync_outbox c ! k) + 1,
               last_sync_attempt := Some t_push\<rparr> \<and>
           \<not> synced (sync_outbox c' ! k)) \<and>
        (o_id (sync_outbox c ! k) \<notin> o_id ` set (unsyncedItems c) \<longrightarrow>
           sync_outbox c' ! k = sync_outbox c ! k) \<and>
        synced (sync_outbox c' ! k) = synced (sync_outbox c ! k)) \<and>
     sync_state c' = sync_state c \<and> db c' = db c \<and> terminals c' = terminals c"
proof -
  let ?c' = "c\<lparr>sync_outbox :=
           map (\<lambda>e. if o_id e \<in> set (map o_id (unsyncedItems c))
                     then e\<lparr>sync_attempts := sync_attempts e + 1, last_sync_attempt := Some t_push\<rparr>
                     else e) (sync_outbox c)\<rparr>"
  let ?e = "if response = None then FetchError else PushFailed"
  have run: "sync post get parse t_push t_pull t_end c w = (Some ?e, ?c', w')"
    using assms(1) pushChanges_failed [where post = post and c = c and w = w and now = t_push
        and response = response and w' = w', OF assms(2,3,4)]
    by (simp add: sync_def)
  have unsynced: "\<And>x. x \<in> set (unsyncedItems c) \<Longrightarrow> \<not> synced x"
    using unsyncedItems_subset by auto
  show ?thesis
    apply (rule exI [of _ ?e], rule exI [of _ ?c'])
    using run unsynced by auto
qed

lemmas client_example_defs = example_client_def example_relay_def example_mutation_def
  example_store_def

theorem failed_push_aborts_cycle_witness:
  "serverUrl (enqueue_all [example_mutation] example_client) \<noteq> [] \<and>
   map o_id (unsyncedItems (enqueue_all [example_mutation] example_client)) = [1] \<and>
   sync (relay_post Unreachable 2) (relay_get Connected) example_parse 2 3 4
      (enqueue_all [example_mutation] example_client) (example_relay 10)
    = (Some FetchError,
       example_client\<lparr>sync_outbox :=
         [\<lparr>o_id = 1, o_entity_type = ''product'', o_entity_id = 4, o_action = ''update'',
           o_data = ''tea'', o_store_id = 1, o_terminal_id = Some 2, synced = False,
           sync_attempts = 1, last_sync_attempt = Some 2, o_created_at = 1\<rparr>]\<rparr>,
       example_relay 10)"
proof -
  define c where "c = enqueue_all [example_mutation] example_client"
  have c: "c = example_client\<lparr>sync_outbox :=
         [\<lparr>o_id = 1, o_entity_type = ''product'', o_entity_id = 4, o_action = ''update'',
           o_data = ''tea'', o_store_id = 1, o_terminal_id = Some 2, synced = False,
           sync_attempts = 0, last_sync_attempt = None, o_created_at = 1\<rparr>]\<rparr>"
    by (simp add: c_def client_example_defs addToOutbox_def fk_ok_def new_rowid_def)
  have items: "unsyncedItems c =
         [\<lparr>o_id = 1, o_entity_type = ''product'', o_entity_id = 4, o_action = ''update'',
           o_data = ''tea'', o_store_id = 1, o_terminal_id = Some 2, synced = False,
           sync_attempts = 0, last_sync_attempt = None, o_created_at = 1\<rparr>]"
    by (simp add: c unsyncedItems_def example_client_def)
  have h1: "serverUrl c \<noteq> []" by (simp add: c example_client_def)
  have h2: "unsyncedItems c \<noteq> []" by (simp add: items)
  have h3: "relay_post Unreachable 2 (push_body c (unsyncedItems c)) (example_relay 10)
      = (None, example_relay 10)"
    by (simp add: relay_post_def)
  have h4: "(None :: push_response option) = None \<or> None = Some PushBadRequest
      \<or> None = Some PushServerError" by simp
  from failed_push_aborts_cycle [where post = "relay_post Unreachable 2" and c = c
      and w = "example_relay 10" and response = None and w' = "example_relay 10"
      and get = "relay_get Connected" and parse = example_parse and t_push = 2 and t_pull = 3
      and t_end = 4, OF h1 h2 h3 h4]
  obtain e c' where run: "sync (relay_post Unreachable 2) (relay_get Connected) example_parse 2 3 4
      c (example_relay 10) = (Some e, c', example_relay 10)"
    by blast
  have "sync (relay_post Unreachable 2) (relay_get Connected) example_parse 2 3 4
      c (example_relay 10) = (Some FetchError,
       example_client\<lparr>sync_outbox :=
         [\<lparr>o_id = 1, o_entity_type = ''product'', o_entity_id = 4, o_action = ''update'',
           o_data = ''tea'', o_store_id = 1, o_terminal_id = Some 2, synced = False,
           sync_attempts = 1, last_sync_attempt = Some 2, o_created_at = 1\<rparr>]\<rparr>,
       example_relay 10)"
    using run h1
    by (simp add: sync_def pushChanges_def items relay_post_def Let_def)
       (simp add: c example_client_def)
  with h1 items show ?thesis unfolding c_def by simp
qed

lemma pushChanges_empty: "unsyncedItems c = [] \<Longrightarrow> pushChanges post now c w = (None, c, w)"
  by (simp add: pushChanges_def)

lemma pullChanges_ok:
  assumes "find (\<lambda>r. Some (ss_terminal_id r) = terminalId c) (sync_state c) = Some cursor"
    and "get \<lparr>q_terminal_id = terminalId c, q_since_version = Some (last_sync_version cursor)\<rparr> w
           = (Some (PullOk changes reported n), w')"
  shows "pullChanges get parse now c w =
     (None,
      c\<lparr>db := (if changes \<noteq> [] then fst (applyRemoteChanges parse now changes (db c)) else db c),
        sync_state :=
          map (\<lambda>r. if Some (ss_terminal_id r) = terminalId c
                    then r\<lparr>last_pull_at := Some now,
                           last_sync_version :=
                             (if reported = 0 then last_sync_version cursor else reported)\<rparr>
                    else r) (sync_state c)\<rparr>,
      w')"
  using assms by (simp add: pullChanges_def Let_def)

text \<open>
  C5, amended. In a sync cycle whose push phase does not fail (with an empty outbox no
  push is sent and the client and the world stay as they are) and whose pull request is
  answered with status 200, the cycle succeeds; the cursor row of the terminal gets
  \<open>last_pull_at\<close> set to the time of the pull, and \<open>last_sync_version\<close> set to the
  reported \<open>latest_version\<close> when that is not 0, while a reported 0 leaves it at its
  previous value. That holds for an empty batch and whatever happens to the entries of
  the batch, which the replay applies or skips one by one.
\<close>

theorem successful_pull_sets_cursor:
  assumes "serverUrl c \<noteq> []"
    and "pushChanges post t_push c w = (None, c1, w1)"
    and "find (\<lambda>r. Some (ss_terminal_id r) = terminalId c1) (sync_state c1) = Some cursor"
    and "get \<lparr>q_terminal_id = terminalId c1, q_since_version = Some (last_sync_version cursor)\<rparr> w1
           = (Some (PullOk changes reported n), w2)"
  shows "\<exists>c2. sync post get parse t_push t_pull t_end c w = (None, c2, w2) \<and>
     (\<exists>r \<in> set (sync_state c2). Some (ss_terminal_id r) = terminalId c) \<and>
     (\<forall>r \<in> set (sync_state c2). Some (ss_terminal_id r) = terminalId c \<longrightarrow>
        last_sync_version r = (if reported = 0 then last_sync_version cursor else reported) \<and>
        last_pull_at r = Some t_pull) \<and>
     (reported \<noteq> 0 \<longrightarrow>
        (\<forall>r \<in> set (sync_state c2). Some (ss_terminal_id r) = terminalId c \<longrightarrow>
           last_sync_version r = reported)) \<and>
     db c2 = (if changes \<noteq> [] then fst (applyRemoteChanges parse t_pull changes (db c)) else db c) \<and>
     (unsyncedItems c = [] \<longrightarrow> c1 = c \<and> w1 = w)"
proof -
  let ?c2 = "c1\<lparr>db := (if changes \<noteq> [] then fst (applyRemoteChanges parse t_pull changes (db c1))
                       else db c1),
        sync_state :=
          map (\<lambda>r. if Some (ss_terminal_id r) = terminalId c1
                    then r\<lparr>last_pull_at := Some t_pull,
                           last_sync_version :=
                             (if reported = 0 then last_sync_version cursor else reported)\<rparr>
                    else r) (sync_state c1)\<rparr>"
  let ?c3 = "?c2\<lparr>terminals :=
                  map (\<lambda>t. if Some (term_id t) = terminalId ?c2
                            then t\<lparr>last_sync_at := Some t_end\<rparr> else t) (terminals ?c2)\<rparr>"
  have same: "terminalId c1 = terminalId c" "db c1 = db c"
    using pushChanges_terminalId [OF assms(2)] by simp_all
  have pull: "pullChanges get parse t_pull c1 w1 = (None, ?c2, w2)"
    using assms(3,4) by (rule pullChanges_ok)
  have run: "sync post get parse t_push t_pull t_end c w = (None, ?c3, w2)"
    using assms(1,2) pull by (simp add: sync_def)
  from assms(3) have row: "cursor \<in> set (sync_state c1)" "Some (ss_terminal_id cursor) = terminalId c1"
    by (auto simp: find_Some_iff)
  have ex: "\<exists>r \<in> set (sync_state ?c3). Some (ss_terminal_id r) = terminalId c"
  proof -
    let ?r = "cursor\<lparr>last_pull_at := Some t_pull,
        last_sync_version := (if reported = 0 then last_sync_version cursor else reported)\<rparr>"
    have "?r \<in> set (sync_state ?c3)"
      using row by (auto simp: image_iff intro!: bexI [of _ cursor])
    moreover have "Some (ss_terminal_id ?r) = terminalId c" using row same by simp
    ultimately show ?thesis by blast
  qed
  have skip: "unsyncedItems c = [] \<longrightarrow> c1 = c \<and> w1 = w"
    using assms(2) by (auto simp: pushChanges_empty)
  show ?thesis
    apply (rule exI [of _ ?c3])
    using run ex skip same by auto
qed

theorem successful_pull_sets_cursor_witness:
  "serverUrl example_client \<noteq> [] \<and>
   pushChanges (relay_post Connected 1) 1 example_client (example_relay 10)
     = (None, example_client, example_relay 10) \<and>
   relay_get Connected \<lparr>q_terminal_id = Some 2, q_since_version = Some 5\<rparr> (example_relay 10)
     = (Some (PullOk [] 10 0), example_relay 10) \<and>
   sync (relay_post Connected 1) (relay_get Connected) example_parse 1 2 3
       example_client (example_relay 10)
     = (None,
        example_client\<lparr>
          terminals := [\<lparr>term_id = 2, term_store_id = 1, last_sync_at = Some 3\<rparr>],
          sync_state := [\<lparr>ss_terminal_id = 2, last_pull_at = Some 2, last_push_at = None,
                          last_sync_version = 10\<rparr>]\<rparr>,
        example_relay 10)"
proof -
  have h1: "serverUrl example_client \<noteq> []" by (simp add: example_client_def)
  have h2: "pushChanges (relay_post Connected 1) 1 example_client (example_relay 10)
     = (None, example_client, example_relay 10)"
    by (simp add: pushChanges_def unsyncedItems_def example_client_def)
  have h3: "find (\<lambda>r. Some (ss_terminal_id r) = terminalId example_client)
      (sync_state example_client)
     = Some \<lparr>ss_terminal_id = 2, last_pull_at = None, last_push_at = None,
                          last_sync_version = 5\<rparr>"
    by (simp add: example_client_def)
  have h4: "relay_get Connected \<lparr>q_terminal_id = terminalId example_client,
         q_since_version = Some (last_sync_version \<lparr>ss_terminal_id = 2, last_pull_at = None,
            last_push_at = None, last_sync_version = 5\<rparr>)\<rparr> (example_relay 10)
     = (Some (PullOk [] 10 0), example_relay 10)"
    by (simp add: relay_get_def pull_def falsy_def example_client_def example_relay_def)
  from successful_pull_sets_cursor [where post = "relay_post Connected 1" and c = example_client
      and w = "example_relay 10" and ?c1.0 = example_client and ?w1.0 = "example_relay 10"
      and get = "relay_get Connected" and parse = example_parse and t_push = 1 and t_pull = 2
      and t_end = 3, OF h1 h2 h3 h4]
  obtain c2 where run: "sync (relay_post Connected 1) (relay_get Connected) example_parse 1 2 3
       example_client (example_relay 10) = (None, c2, example_relay 10)"
    by blast
  have eq: "sync (relay_post Connected 1) (relay_get Connected) example_parse 1 2 3
       example_client (example_relay 10)
     = (None,
        example_client\<lparr>
          terminals := [\<lparr>term_id = 2, term_store_id = 1, last_sync_at = Some 3\<rparr>],
          sync_state := [\<lparr>ss_terminal_id = 2, last_pull_at = Some 2, last_push_at = None,
                          last_sync_version = 10\<rparr>]\<rparr>,
        example_relay 10)"
    by (simp add: sync_def pushChanges_def unsyncedItems_def pullChanges_def relay_get_def
        pull_def falsy_def example_client_def example_relay_def Let_def)
  from run have "c2 = example_client\<lparr>
          terminals := [\<lparr>term_id = 2, term_store_id = 1, last_sync_at = Some 3\<rparr>],
          sync_state := [\<lparr>ss_terminal_id = 2, last_pull_at = Some 2, last_push_at = None,
                          last_sync_version = 10\<rparr>]\<rparr>"
    unfolding eq by simp
  with run h1 h2 h4 show ?thesis by (simp add: example_client_def)
qed

text \<open>
  C5, as stated, fails when the relay reports \<open>latest_version = 0\<close> to a terminal whose
  cursor is not 0: the pull succeeds and the cursor stays at 5.
\<close>

theorem pull_from_fresh_relay_keeps_cursor:
  "relay_get Connected \<lparr>q_terminal_id = Some 2, q_since_version = Some 5\<rparr> (example_relay 0)
     = (Some (PullOk [] 0 0), example_relay 0) \<and>
   sync (relay_post Connected 1) (relay_get Connected) example_parse 1 2 3
       example_client (example_relay 0)
     = (None,
        example_client\<lparr>
          terminals := [\<lparr>term_id = 2, term_store_id = 1, last_sync_at = Some 3\<rparr>],
          sync_state := [\<lparr>ss_terminal_id = 2, last_pull_at = Some 2, last_push_at = None,
                          last_sync_version = 5\<rparr>]\<rparr>,
        example_relay 0)"
  by (simp add: sync_def pushChanges_def unsyncedItems_def pullChanges_def relay_get_def
      pull_def falsy_def example_client_def example_relay_def Let_def)

lemma fold_max_ge: "(a::int) \<le> fold max xs a"
  by (induction xs arbitrary: a) (auto intro: order_trans [OF max.cobounded2])

lemma fold_max_bound: "(x::int) \<in> set xs \<Longrightarrow> x \<le> fold max xs a"
proof (induction xs arbitrary: a)
  case Nil
  then show ?case by simp
next
  case (Cons y ys)
  show ?case
  proof (cases "x = y")
    case True
    have "x \<le> max y a" using True by simp
    also have "\<dots> \<le> fold max ys (max y a)" by (rule fold_max_ge)
    finally show ?thesis by simp
  next
    case False
    with Cons show ?thesis by simp
  qed
qed

lemma new_rowid_fresh: "new_rowid None seq ids \<notin> set ids"
proof
  assume "new_rowid None seq ids \<in> set ids"
  then have "new_rowid None seq ids \<le> fold max ids seq" by (rule fold_max_bound)
  then show False by (simp add: new_rowid_def)
qed

lemma addToOutbox_ok:
  "outbox_ok c K \<Longrightarrow> outbox_ok (addToOutbox now entityType entityId act json c) K"
  using new_rowid_fresh [of 0 "map o_id (sync_outbox c)"]
  by (auto simp: outbox_ok_def addToOutbox_def split: option.splits)

lemma outbox_ok_map:
  assumes "outbox_ok c K"
    and "sync_outbox c' = map f (sync_outbox c)"
    and "\<And>e. o_id (f e) = o_id e"
    and "\<And>e. synced (f e) \<Longrightarrow> synced e \<or> o_id e \<in> K'"
  shows "outbox_ok c' (K \<union> K')"
proof -
  have "map o_id (sync_outbox c') = map o_id (sync_outbox c)"
    by (simp add: assms(2,3))
  moreover have "\<forall>e \<in> set (sync_outbox c'). synced e \<longrightarrow> o_id e \<in> K \<union> K'"
  proof (intro ballI impI)
    fix e assume "e \<in> set (sync_outbox c')" and s: "synced e"
    then obtain e0 where e0: "e0 \<in> set (sync_outbox c)" "e = f e0"
      by (auto simp: assms(2))
    from s e0 assms(4) have "synced e0 \<or> o_id e0 \<in> K'" by simp
    with assms(1) e0 show "o_id e \<in> K \<union> K'"
      by (auto simp: outbox_ok_def assms(3))
  qed
  ultimately show ?thesis using assms(1) by (simp add: outbox_ok_def)
qed

lemma pushChanges_cases:
  assumes "pushChanges post now c w = (r, c', w')"
  shows "c' = c \<or>
    (fst (post (push_body c (unsyncedItems c)) w) \<in> range (\<lambda>(n, v). Some (PushOk n v)) \<and>
     sync_outbox c' = map (\<lambda>e. if o_id e \<in> o_id ` set (unsyncedItems c)
                                then e\<lparr>synced := True\<rparr> else e) (sync_outbox c)) \<or>
    (fst (post (push_body c (unsyncedItems c)) w) \<notin> range (\<lambda>(n, v). Some (PushOk n v)) \<and>
     sync_outbox c' = map (\<lambda>e. if o_id e \<in> o_id ` set (unsyncedItems c)
                                then e\<lparr>sync_attempts := sync_attempts e + 1,
                                       last_sync_attempt := Some now\<rparr>
                                else e) (sync_outbox c))"
  using assms
  by (auto simp: pushChanges_def Let_def
      split: if_splits prod.splits option.splits push_response.splits)

lemma pushChanges_confirmed_ok:
  assumes "outbox_ok c K" and "pushChanges post now c w = (r, c', w')"
  shows "outbox_ok c' (K \<union> o_id ` set (unsyncedItems c))"
proof -
  from pushChanges_cases [OF assms(2)] consider
    (same) "c' = c"
    | (mark) "sync_outbox c' = map (\<lambda>e. if o_id e \<in> o_id ` set (unsyncedItems c)
                                then e\<lparr>synced := True\<rparr> else e) (sync_outbox c)"
    | (count) "sync_outbox c' = map (\<lambda>e. if o_id e \<in> o_id ` set (unsyncedItems c)
                                then e\<lparr>sync_attempts := sync_attempts e + 1,
                                       last_sync_attempt := Some now\<rparr>
                                else e) (sync_outbox c)"
    by blast
  then show ?thesis
  proof cases
    case same
    with assms(1) show ?thesis by (auto simp: outbox_ok_def)
  next
    case mark
    from assms(1) mark show ?thesis by (rule outbox_ok_map) (auto split: if_splits)
  next
    case count
    from assms(1) count show ?thesis by (rule outbox_ok_map) (auto split: if_splits)
  qed
qed

lemma pushChanges_failed_ok:
  assumes "outbox_ok c K"
    and "fst (post (push_body c (unsyncedItems c)) w) \<notin> range (\<lambda>(n, v). Some (PushOk n v))"
    and "pushChanges post now c w = (r, c', w')"
  shows "outbox_ok c' K"
proof -
  from pushChanges_cases [OF assms(3)] assms(2) consider
    (same) "c' = c"
    | (count) "sync_outbox c' = map (\<lambda>e. if o_id e \<in> o_id ` set (unsyncedItems c)
                                then e\<lparr>sync_attempts := sync_attempts e + 1,
                                       last_sync_attempt := Some now\<rparr>
                                else e) (sync_outbox c)"
    by blast
  then show ?thesis
  proof cases
    case same
    with assms(1) show ?thesis by simp
  next
    case count
    from assms(1) count have "outbox_ok c' (K \<union> {})"
      by (rule outbox_ok_map) (auto split: if_splits)
    then show ?thesis by simp
  qed
qed

lemma pullChanges_outbox:
  "pullChanges get parse now c w = (r, c', w') \<Longrightarrow> sync_outbox c' = sync_outbox c"
  by (auto simp: pullChanges_def Let_def
      split: option.splits prod.splits pull_response.splits)

text \<open>
  C7. In every state that the client reaches from an empty outbox by enqueueing, pushing
  (confirmed or failed) and pulling, against any world, every outbox row that is marked
  synced has its id among the rows of a batch for which the push was answered with
  status 200; ids identify rows, since they are never reused.
\<close>

theorem synced_only_when_confirmed:
  assumes "reachable post get parse c w K"
  shows "(\<forall>e \<in> set (sync_outbox c). synced e \<longrightarrow> o_id e \<in> K)
         \<and> distinct (map o_id (sync_outbox c))"
proof -
  from assms have "outbox_ok c K"
  proof (induction rule: reachable.induct)
    case (start c w)
    then show ?case by (simp add: outbox_ok_def)
  next
    case (enqueue c w K now entityType entityId act json)
    then show ?case by (simp add: addToOutbox_ok)
  next
    case (push_confirmed c w K n v now r c' w')
    then show ?case by (auto intro: pushChanges_confirmed_ok)
  next
    case (push_failed c w K now r c' w')
    then show ?case by (auto intro: pushChanges_failed_ok)
  next
    case (pull c w K now r c' w')
    then show ?case by (simp add: outbox_ok_def pullChanges_outbox)
  qed
  then show ?thesis by (simp add: outbox_ok_def)
qed

lemma addToOutbox_accepted:
  assumes "json = Some d" and "act \<in> {''create'', ''update'', ''delete''}"
    and "storeId c \<in> set (stores (db c))" and "fk_ok (terminalId c) (map term_id (terminals c))"
  shows "\<exists>row. addToOutbox now entityType entityId act json c
            = c\<lparr>sync_outbox := sync_outbox c @ [row]\<rparr> \<and> \<not> synced row"
  using assms by (auto simp: addToOutbox_def)

lemma enqueue_all_accepted:
  assumes "\<forall>m \<in> set ms. m_data m \<noteq> None \<and> m_action m \<in> {''create'', ''update'', ''delete''}"
    and "storeId c \<in> set (stores (db c))" and "fk_ok (terminalId c) (map term_id (terminals c))"
  shows "\<exists>new. enqueue_all ms c = c\<lparr>sync_outbox := sync_outbox c @ new\<rparr>
            \<and> length new = length ms \<and> (\<forall>e \<in> set new. \<not> synced e)"
  using assms
proof (induction ms arbitrary: c)
  case Nil
  then show ?case by simp
next
  case (Cons m ms)
  from Cons.prems(1) obtain d where d: "m_data m = Some d"
    and a: "m_action m \<in> {''create'', ''update'', ''delete''}" by auto
  from addToOutbox_accepted [OF d a Cons.prems(2,3)] obtain row where
    row: "addToOutbox (m_time m) (m_entity_type m) (m_entity_id m) (m_action m) (m_data m) c
            = c\<lparr>sync_outbox := sync_outbox c @ [row]\<rparr>" "\<not> synced row"
    by blast
  let ?c1 = "c\<lparr>sync_outbox := sync_outbox c @ [row]\<rparr>"
  have "\<exists>new. enqueue_all ms ?c1 = ?c1\<lparr>sync_outbox := sync_outbox ?c1 @ new\<rparr>
            \<and> length new = length ms \<and> (\<forall>e \<in> set new. \<not> synced e)"
    using Cons.prems by (intro Cons.IH) simp_all
  then obtain new where new: "enqueue_all ms ?c1 = ?c1\<lparr>sync_outbox := sync_outbox ?c1 @ new\<rparr>"
    "length new = length ms" "\<forall>e \<in> set new. \<not> synced e" by blast
  have "enqueue_all (m # ms) c = c\<lparr>sync_outbox := sync_outbox c @ (row # new)\<rparr>"
    using row(1) new(1) by simp
  moreover have "length (row # new) = length (m # ms)" using new(2) by simp
  moreover have "\<forall>e \<in> set (row # new). \<not> synced e" using row(2) new(3) by simp
  ultimately show ?case by blast
qed

lemma push_outbox_batch:
  assumes "terminalId c = Some t" and "t \<noteq> 0" and "storeId c \<noteq> 0"
    and "- (2 ^ 53) \<le> latest_version st"
    and "latest_version st + int (length items) \<le> 2 ^ 53"
  shows "\<exists>st'. push now (push_body c items) st
            = (PushOk (length items) (latest_version st + int (length items)), st')"
proof -
  have "list_all complete_change (map change_of items)"
    by (simp add: list_all_iff complete_change_def change_of_def)
  then have "\<exists>res. insert_changes now (storeId c) (Some t) (map change_of items)
            (latest_version st) (sync_changes st) = Some res"
    by (simp only: insert_changes_accepts)
  then obtain v' rows' where
    ins: "insert_changes now (storeId c) (Some t) (map change_of items) (latest_version st)
            (sync_changes st) = Some (v', rows')"
    by auto
  have "latest_version st + int (length (map change_of items)) \<le> 2 ^ 53"
    using assms(5) by simp
  from insert_changes_Some [OF ins assms(4) this]
  have "v' = latest_version st + int (length items)" by simp
  with ins assms(1,2,3) show ?thesis
    by (simp add: push_def push_body_def falsy_def)
qed

lemma unsyncedItems_all:
  assumes "length (filter (\<lambda>e. \<not> synced e) (sync_outbox c)) \<le> 100"
  shows "set (unsyncedItems c) = {e \<in> set (sync_outbox c). \<not> synced e}"
    and "length (unsyncedItems c) = length (filter (\<lambda>e. \<not> synced e) (sync_outbox c))"
  using assms by (auto simp: unsyncedItems_def)

lemma sync_after_push:
  assumes "serverUrl c \<noteq> []" and "pushChanges post t_push c w = (None, c1, w1)"
    and "\<And>req x. snd (get req x) = x"
    and "sync post get parse t_push t_pull t_end c w = (r, c', w')"
  shows "sync_outbox c' = sync_outbox c1 \<and> w' = w1"
proof -
  obtain r2 c2 w2 where p: "pullChanges get parse t_pull c1 w1 = (r2, c2, w2)"
    by (cases "pullChanges get parse t_pull c1 w1") auto
  from pullChanges_outbox [OF p] have ob: "sync_outbox c2 = sync_outbox c1" .
  have "w2 = w1"
    using p assms(3)
    by (auto simp: pullChanges_def Let_def split: option.splits prod.splits pull_response.splits)
       (metis snd_conv)+
  with assms(1,2,4) p ob show ?thesis
    by (auto simp: sync_def split: option.splits)
qed

text \<open>
  C3, amended. Start from a client with a server URL, a terminal id and store id that
  are not 0 and exist locally, and no pending outbox row. After N mutations are enqueued,
  each with a JSON text and one of the three actions, and N is at most 100, one sync
  cycle against a reachable relay whose \<open>latest_version\<close> and \<open>latest_version + N\<close> lie
  between \<open>-2^53\<close> and \<open>2^53\<close> leaves all rows of the outbox synced, N more than
  before; the relay's change log has exactly N new rows, with the versions
  \<open>latest_version + 1, ..., latest_version + N\<close>, and \<open>latest_version\<close> has grown by N,
  whatever the outcome of the pull phase.
\<close>

theorem cycle_syncs_whole_outbox:
  assumes url: "serverUrl c \<noteq> []"
    and tid: "terminalId c = Some t" "t \<noteq> 0" "t \<in> term_id ` set (terminals c)"
    and sid: "storeId c \<noteq> 0" "storeId c \<in> set (stores (db c))"
    and old: "\<forall>e \<in> set (sync_outbox c). synced e"
    and ms: "\<forall>m \<in> set ms. m_data m \<noteq> None \<and> m_action m \<in> {''create'', ''update'', ''delete''}"
    and n: "length ms \<le> 100"
    and lo: "- (2 ^ 53) \<le> latest_version st"
    and hi: "latest_version st + int (length ms) \<le> 2 ^ 53"
    and run: "sync (relay_post Connected t_relay) (relay_get l) parse t_push t_pull t_end
                (enqueue_all ms c) st = (r, c', st')"
  shows "length (sync_outbox c') = length (sync_outbox c) + length ms \<and>
         (\<forall>e \<in> set (sync_outbox c'). synced e) \<and>
         (\<exists>new. sync_changes st' = sync_changes st @ new \<and> length new = length ms \<and>
            map version new = map (\<lambda>i. latest_version st + 1 + int i) [0..<length ms]) \<and>
         latest_version st' = latest_version st + int (length ms)"
proof -
  have fk: "fk_ok (terminalId c) (map term_id (terminals c))"
    using tid by (simp add: fk_ok_def)
  define c1 where "c1 = enqueue_all ms c"
  from enqueue_all_accepted [OF ms sid(2) fk] obtain new where
    c1: "c1 = c\<lparr>sync_outbox := sync_outbox c @ new\<rparr>" and
    len: "length new = length ms" and unsynced: "\<forall>e \<in> set new. \<not> synced e"
    unfolding c1_def by blast
  have outbox1: "sync_outbox c1 = sync_outbox c @ new" by (simp add: c1)
  have fields1: "serverUrl c1 \<noteq> []" "terminalId c1 = Some t" "storeId c1 \<noteq> 0"
    using url tid sid by (simp_all add: c1)
  have pending: "filter (\<lambda>e. \<not> synced e) (sync_outbox c1) = new"
    unfolding outbox1 using old unsynced by (simp add: filter_empty_conv)
  have small: "length (filter (\<lambda>e. \<not> synced e) (sync_outbox c1)) \<le> 100"
    unfolding pending using len n by simp
  have batch: "set (unsyncedItems c1) = set new" "length (unsyncedItems c1) = length ms"
    using small len unfolding unsyncedItems_def pending by simp_all
  have get: "\<And>req x. snd (relay_get l req x) = x"
    by (simp add: relay_get_def split: link.splits)
  from run have run1: "sync (relay_post Connected t_relay) (relay_get l) parse t_push t_pull t_end
                c1 st = (r, c', st')"
    by (simp only: c1_def)
  show ?thesis
  proof (cases "ms = []")
    case True
    then have empty: "new = []" using len by simp
    then have "unsyncedItems c1 = []" using batch(1) by simp
    then have p: "pushChanges (relay_post Connected t_relay) t_push c1 st = (None, c1, st)"
      by (rule pushChanges_empty)
    have "sync_outbox c' = sync_outbox c1 \<and> st' = st"
      using fields1(1) p get run1 by (rule sync_after_push)
    then show ?thesis using True empty old outbox1 by simp
  next
    case False
    then have nonempty: "unsyncedItems c1 \<noteq> []" using batch(2) by auto
    have hi1: "latest_version st + int (length (unsyncedItems c1)) \<le> 2 ^ 53"
      using hi by (simp only: batch(2))
    from push_outbox_batch [OF fields1(2) tid(2) fields1(3) lo hi1, of t_relay]
    obtain st1 where
      push: "push t_relay (push_body c1 (unsyncedItems c1)) st
               = (PushOk (length ms) (latest_version st + int (length ms)), st1)"
      unfolding batch(2) by blast
    define c2 where "c2 = c1\<lparr>sync_outbox :=
                  map (\<lambda>e. if o_id e \<in> set (map o_id (unsyncedItems c1))
                            then e\<lparr>synced := True\<rparr> else e) (sync_outbox c1),
                sync_state :=
                  map (\<lambda>r. if Some (ss_terminal_id r) = terminalId c1
                            then r\<lparr>last_push_at := Some t_push\<rparr> else r) (sync_state c1)\<rparr>"
    have p: "pushChanges (relay_post Connected t_relay) t_push c1 st = (None, c2, st1)"
      using nonempty push by (simp add: pushChanges_def relay_post_def Let_def c2_def)
    have res: "sync_outbox c' = sync_outbox c2 \<and> st' = st1"
      using fields1(1) p get run1 by (rule sync_after_push)
    have outbox2: "sync_outbox c2 = map (\<lambda>e. if o_id e \<in> set (map o_id (unsyncedItems c1))
                            then e\<lparr>synced := True\<rparr> else e) (sync_outbox c1)"
      by (simp add: c2_def)
    have all: "\<forall>e \<in> set (sync_outbox c2). synced e"
    proof
      fix e assume "e \<in> set (sync_outbox c2)"
      then have "e \<in> (\<lambda>e. if o_id e \<in> set (map o_id (unsyncedItems c1))
                            then e\<lparr>synced := True\<rparr> else e) ` set (sync_outbox c1)"
        by (simp only: outbox2 set_map)
      then obtain e0 where in1: "e0 \<in> set (sync_outbox c1)"
        and e: "e = (if o_id e0 \<in> set (map o_id (unsyncedItems c1))
                     then e0\<lparr>synced := True\<rparr> else e0)"
        by (rule imageE)
      from in1 have e0: "e0 \<in> set (sync_outbox c) \<union> set new" by (simp add: outbox1)
      show "synced e"
      proof (cases "e0 \<in> set new")
        case True
        then have "o_id e0 \<in> set (map o_id (unsyncedItems c1))" using batch(1) by auto
        with e show ?thesis by simp
      next
        case False
        with e0 old have "synced e0" by auto
        with e show ?thesis by simp
      qed
    qed
    have len2: "length (sync_outbox c2) = length (sync_outbox c) + length ms"
      by (simp add: outbox2 outbox1 len)
    have body: "p_changes (push_body c1 (unsyncedItems c1))
                  = ChangeList (map change_of (unsyncedItems c1))"
      by (simp add: push_body_def)
    have hi2: "latest_version st + int (length (map change_of (unsyncedItems c1))) \<le> 2 ^ 53"
      using hi1 by simp
    from push_accepted_rows [OF push body lo hi2] obtain added where
      "sync_changes st1 = sync_changes st @ added" "length added = length ms"
      "map version added = map (\<lambda>i. latest_version st + 1 + int i) [0..<length ms]"
      "latest_version st1 = latest_version st + int (length ms)"
      by auto
    with res all len2 show ?thesis by auto
  qed
qed

theorem cycle_syncs_whole_outbox_witness:
  "serverUrl example_client \<noteq> [] \<and> terminalId example_client = Some 2 \<and> (2::int) \<noteq> 0 \<and>
   storeId example_client \<noteq> 0 \<and> sync_outbox example_client = [] \<and>
   length [example_mutation, example_mutation] \<le> 100 \<and>
   - (2 ^ 53) \<le> latest_version (example_relay 10) \<and>
   latest_version (example_relay 10) + int (length [example_mutation, example_mutation]) \<le> 2 ^ 53 \<and>
   length (sync_outbox (fst (snd
      (sync (relay_post Connected 2) (relay_get Connected) example_parse 2 3 4
         (enqueue_all [example_mutation, example_mutation] example_client) (example_relay 10)))))
     = 2 \<and>
   map synced (sync_outbox (fst (snd
      (sync (relay_post Connected 2) (relay_get Connected) example_parse 2 3 4
         (enqueue_all [example_mutation, example_mutation] example_client) (example_relay 10)))))
     = [True, True] \<and>
   map version (sync_changes (snd (snd
      (sync (relay_post Connected 2) (relay_get Connected) example_parse 2 3 4
         (enqueue_all [example_mutation, example_mutation] example_client) (example_relay 10)))))
     = [11, 12]"
proof -
  let ?run = "sync (relay_post Connected 2) (relay_get Connected) example_parse 2 3 4
         (enqueue_all [example_mutation, example_mutation] example_client) (example_relay 10)"
  have h: "serverUrl example_client \<noteq> []" "terminalId example_client = Some 2" "(2::int) \<noteq> 0"
    "2 \<in> term_id ` set (terminals example_client)"
    "storeId example_client \<noteq> 0" "storeId example_client \<in> set (stores (db example_client))"
    "\<forall>e \<in> set (sync_outbox example_client). synced e"
    "\<forall>m \<in> set [example_mutation, example_mutation].
        m_data m \<noteq> None \<and> m_action m \<in> {''create'', ''update'', ''delete''}"
    "length [example_mutation, example_mutation] \<le> 100"
    "- (2 ^ 53) \<le> latest_version (example_relay 10)"
    "latest_version (example_relay 10) + int (length [example_mutation, example_mutation]) \<le> 2 ^ 53"
    by (simp_all add: example_client_def example_store_def example_mutation_def example_relay_def)
  have run: "?run = (fst ?run, fst (snd ?run), snd (snd ?run))" by simp
  have e: "sync_outbox example_client = []" by (simp add: example_client_def)
  have len: "length (sync_outbox (fst (snd ?run))) = 2"
    using cycle_syncs_whole_outbox [OF h run] e by simp
  have flags: "map synced (sync_outbox (fst (snd ?run))) = [True, True]" by code_simp
  have versions: "map version (sync_changes (snd (snd ?run))) = [11, 12]" by code_simp
  from h(1,2,3,5,9,10,11) e len flags versions show ?thesis by simp
qed

text \<open>
  C3, as stated, fails in two ways. For N = 101: the batch of a push holds at most 100
  rows, so after 101 mutations and one successful cycle 100 rows are synced, one is
  pending, and the relay has 100 new rows. For a relay at \<open>latest_version = 2^53\<close>: after
  two mutations and one successful cycle both rows are synced, and the relay has two new
  rows, both with the version \<open>2^53\<close>.
\<close>

theorem cycle_leaves_entries_pending:
  "(case sync (relay_post Connected 2) (relay_get Connected) example_parse 2 3 4
           (enqueue_all (replicate 101 example_mutation) example_client) (example_relay 10) of
      (r, c', st') \<Rightarrow>
        (r, length (sync_outbox c'), length (filter synced (sync_outbox c')),
         length (sync_changes st'), latest_version st'))
   = (None, 101, 100, 100, 110) \<and>
   (case sync (relay_post Connected 2) (relay_get Connected) example_parse 2 3 4
           (enqueue_all [example_mutation, example_mutation] example_client)
           (example_relay (2 ^ 53)) of
      (r, c', st') \<Rightarrow>
        (r, map synced (sync_outbox c'), map version (sync_changes st'), latest_version st'))
   = (None, [True, True], [2 ^ 53, 2 ^ 53], 2 ^ 53)"
  by code_simp

theorem synced_only_when_confirmed_witness:
  "reachable (relay_post Connected 2) (relay_get Connected) example_parse
     (fst (snd (pushChanges (relay_post Connected 2) 2
        (addToOutbox 1 ''product'' 4 ''update'' (Some ''tea'') example_client) (example_relay 10))))
     (snd (snd (pushChanges (relay_post Connected 2) 2
        (addToOutbox 1 ''product'' 4 ''update'' (Some ''tea'') example_client) (example_relay 10))))
     ({} \<union> o_id ` set (unsyncedItems
        (addToOutbox 1 ''product'' 4 ''update'' (Some ''tea'') example_client))) \<and>
   map (\<lambda>e. (o_id e, synced e)) (sync_outbox (fst (snd (pushChanges (relay_post Connected 2) 2
        (addToOutbox 1 ''product'' 4 ''update'' (Some ''tea'') example_client) (example_relay 10)))))
     = [(1, True)] \<and>
   o_id ` set (unsyncedItems (addToOutbox 1 ''product'' 4 ''update'' (Some ''tea'') example_client))
     = {1} \<and>
   distinct (map o_id (sync_outbox (fst (snd (pushChanges (relay_post Connected 2) 2
        (addToOutbox 1 ''product'' 4 ''update'' (Some ''tea'') example_client) (example_relay 10))))))"
proof -
  define c1 where "c1 = addToOutbox 1 ''product'' 4 ''update'' (Some ''tea'') example_client"
  let ?p = "pushChanges (relay_post Connected 2) 2 c1 (example_relay 10)"
  have c1: "c1 = example_client\<lparr>sync_outbox :=
         [\<lparr>o_id = 1, o_entity_type = ''product'', o_entity_id = 4, o_action = ''update'',
           o_data = ''tea'', o_store_id = 1, o_terminal_id = Some 2, synced = False,
           sync_attempts = 0, last_sync_attempt = None, o_created_at = 1\<rparr>]\<rparr>"
    by (simp add: c1_def example_client_def example_store_def addToOutbox_def fk_ok_def
        new_rowid_def)
  have items: "unsyncedItems c1 =
         [\<lparr>o_id = 1, o_entity_type = ''product'', o_entity_id = 4, o_action = ''update'',
           o_data = ''tea'', o_store_id = 1, o_terminal_id = Some 2, synced = False,
           sync_attempts = 0, last_sync_attempt = None, o_created_at = 1\<rparr>]"
    by (simp add: c1 unsyncedItems_def example_client_def)
  have r0: "reachable (relay_post Connected 2) (relay_get Connected) example_parse
      example_client (example_relay 10) {}"
    by (rule reachable.start) (simp add: example_client_def)
  have r1: "reachable (relay_post Connected 2) (relay_get Connected) example_parse
      c1 (example_relay 10) {}"
    unfolding c1_def by (rule reachable.enqueue [OF r0])
  have ok: "fst (relay_post Connected 2 (push_body c1 (unsyncedItems c1)) (example_relay 10))
      = Some (PushOk 1 11)"
    by (simp add: items relay_post_def push_def push_body_def change_of_def falsy_def
        insert_change_def example_relay_def js_increment_exact)
       (simp add: c1 example_client_def)
  have p: "?p = (fst ?p, fst (snd ?p), snd (snd ?p))" by simp
  have r2: "reachable (relay_post Connected 2) (relay_get Connected) example_parse
      (fst (snd ?p)) (snd (snd ?p)) ({} \<union> o_id ` set (unsyncedItems c1))"
    by (rule reachable.push_confirmed [OF r1 ok p])
  have d: "distinct (map o_id (sync_outbox (fst (snd ?p))))"
    using synced_only_when_confirmed [OF r2] by simp
  have m: "map (\<lambda>e. (o_id e, synced e)) (sync_outbox (fst (snd ?p))) = [(1, True)]"
    unfolding c1_def by code_simp
  have k: "o_id ` set (unsyncedItems c1) = {1}" by (simp add: items)
  from r2 m k d show ?thesis unfolding c1_def by simp
qed

end
